theory Spec2Isabelle
  imports Main
begin

chapter \<open>The request-gating pipeline of the CRUD backend, and the sum-to-n solutions\<close>

text \<open>
  The development embeds the TypeScript sources function by function. Promises are
  modelled by their settled value: a rejected promise or a thrown exception is the left
  injection of a sum, a call of \<open>next()\<close> or \<open>next(error)\<close> is a value of
  \<open>next_call\<close>. Collaborators that live outside the embedded sources (the Prisma
  repositories, \<open>jsonwebtoken\<close>, \<open>bcrypt\<close>, \<open>zod\<close>) are parameters of
  the functions that call them, so every theorem holds for each of their possible behaviours.
\<close>

section \<open>Error taxonomy (utils/errors.ts)\<close>

datatype error_kind =
    AppErrorBase
  | BadRequest
  | Unauthorized
  | Forbidden
  | NotFound
  | Conflict
  | Validation
  | RateLimit
  | InternalServer
  | ServiceUnavailable

text \<open>
  An \<open>AppError\<close> instance: \<open>kind\<close> is the subclass whose prototype the constructor
  installs, the other fields are the properties the base constructor assigns.
\<close>

record app_error =
  kind :: error_kind
  message :: string
  statusCode :: nat
  isOperational :: bool
  errors :: "string list option"

definition AppError :: "string \<Rightarrow> nat \<Rightarrow> string list option \<Rightarrow> app_error" where
  "AppError msg code errs =
     \<lparr>kind = AppErrorBase, message = msg, statusCode = code, isOperational = True, errors = errs\<rparr>"

definition BadRequestError :: "string \<Rightarrow> string list option \<Rightarrow> app_error" where
  "BadRequestError msg errs = (AppError msg 400 errs)\<lparr>kind := BadRequest\<rparr>"

definition UnauthorizedError :: "string \<Rightarrow> app_error" where
  "UnauthorizedError msg = (AppError msg 401 None)\<lparr>kind := Unauthorized\<rparr>"

definition ForbiddenError :: "string \<Rightarrow> app_error" where
  "ForbiddenError msg = (AppError msg 403 None)\<lparr>kind := Forbidden\<rparr>"

definition NotFoundError :: "string \<Rightarrow> app_error" where
  "NotFoundError msg = (AppError msg 404 None)\<lparr>kind := NotFound\<rparr>"

definition ConflictError :: "string \<Rightarrow> app_error" where
  "ConflictError msg = (AppError msg 409 None)\<lparr>kind := Conflict\<rparr>"

definition ValidationError :: "string \<Rightarrow> string list option \<Rightarrow> app_error" where
  "ValidationError msg errs = (AppError msg 422 errs)\<lparr>kind := Validation\<rparr>"

definition RateLimitError :: "string \<Rightarrow> app_error" where
  "RateLimitError msg = (AppError msg 429 None)\<lparr>kind := RateLimit\<rparr>"

text \<open>
  What a middleware hands to Express: \<open>next()\<close> continues with the downstream handler,
  \<open>next(error)\<close> skips every downstream handler and goes to the error handler. The
  error is an \<open>AppError\<close> or a foreign exception (one that is not an \<open>AppError\<close>),
  of which only the message is kept.
\<close>

datatype thrown = App app_error | Foreign string

datatype next_call = Next | NextError thrown

section \<open>JavaScript numbers\<close>

text \<open>
  The values of type \<open>number\<close> that the embedded functions compute with are the
  doubles that are non-negative integers, positive infinity and NaN. \<open>Finite m\<close> is the
  double with the integer value \<open>m\<close>; it is a double when \<open>is_double m\<close> holds.
\<close>

datatype number = Finite nat | Infinity | NaN

text \<open>The number of binary digits of a natural number.\<close>

function bit_length :: "nat \<Rightarrow> nat" where
  "bit_length m = (if m = 0 then 0 else Suc (bit_length (m div 2)))"
  by pat_completeness auto
termination
  by (relation "measure id") auto

declare bit_length.simps [simp del]

text \<open>
  Rounding of a non-negative integer to the nearest double, ties to the even significand
  (IEEE 754, 53 bits of significand): below \<open>2^53\<close> every integer is a double; above,
  the low \<open>e\<close> bits are rounded away; a result of \<open>2^1024\<close> or more is infinity.
\<close>

definition round_double :: "nat \<Rightarrow> number" where
  "round_double m =
     (if m < 2 ^ 53 then Finite m
      else
        let e = bit_length m - 53;
            q = m div 2 ^ e;
            r = m mod 2 ^ e;
            q' = (if 2 ^ e < 2 * r \<or> (2 * r = 2 ^ e \<and> odd q) then q + 1 else q);
            m' = q' * 2 ^ e
        in if 2 ^ 1024 \<le> m' then Infinity else Finite m')"

definition is_double :: "nat \<Rightarrow> bool" where
  "is_double m = (round_double m = Finite m)"

text \<open>
  The operators \<open>+\<close>, \<open>*\<close> and \<open><=\<close> on these values, and \<open>n - 1\<close>: the exact
  result, rounded. \<open>minus_one\<close> is applied only where \<open>n <= 1\<close> is false, so the result is
  not negative.
\<close>

fun dadd :: "number \<Rightarrow> number \<Rightarrow> number" where
  "dadd (Finite a) (Finite b) = round_double (a + b)"
| "dadd NaN y = NaN"
| "dadd x NaN = NaN"
| "dadd x y = Infinity"

fun dmul :: "number \<Rightarrow> number \<Rightarrow> number" where
  "dmul (Finite a) (Finite b) = round_double (a * b)"
| "dmul NaN y = NaN"
| "dmul x NaN = NaN"
| "dmul (Finite a) Infinity = (if a = 0 then NaN else Infinity)"
| "dmul Infinity (Finite b) = (if b = 0 then NaN else Infinity)"
| "dmul Infinity Infinity = Infinity"

fun minus_one :: "number \<Rightarrow> number" where
  "minus_one (Finite a) = round_double (a - 1)"
| "minus_one x = x"

fun dle :: "number \<Rightarrow> number \<Rightarrow> bool" where
  "dle (Finite a) (Finite b) = (a \<le> b)"
| "dle NaN y = False"
| "dle x NaN = False"
| "dle x Infinity = True"
| "dle Infinity (Finite b) = False"

text \<open>
  Division by 2 of a value that is an even integer, infinite or NaN: it is exact. The
  dividend in \<open>sum_to_n_a\<close> is such a value (lemma \<open>dividend_even\<close>).
\<close>

fun half :: "number \<Rightarrow> number" where
  "half (Finite p) = Finite (p div 2)"
| "half x = x"

section \<open>Data model (models/types.ts and the Prisma client types)\<close>

text \<open>The \<open>Role\<close> enum of the Prisma schema: Admin, User and Guest.\<close>

datatype Role = ADMIN | USER | GUEST

definition role_name :: "Role \<Rightarrow> string" where
  "role_name r = (case r of ADMIN \<Rightarrow> ''ADMIN'' | USER \<Rightarrow> ''USER'' | GUEST \<Rightarrow> ''GUEST'')"

text \<open>A row of the user table, as the user repository returns it.\<close>

record user =
  user_id :: string
  user_email :: string
  user_password :: string
  user_name :: string
  user_role :: Role
  user_isActive :: bool

text \<open>The \<open>user\<close> property of an \<open>AuthenticatedRequest\<close>.\<close>

record auth_user =
  au_id :: string
  au_email :: string
  au_role :: Role
  au_isActive :: bool

record JwtPayload =
  jwt_userId :: string
  jwt_email :: string
  jwt_role :: Role
  jwt_iat :: "nat option"
  jwt_exp :: "nat option"

record LoginDto =
  dto_email :: string
  dto_password :: string

record login_user =
  lu_id :: string
  lu_email :: string
  lu_name :: string
  lu_role :: Role

record LoginResponse =
  lr_user :: login_user
  accessToken :: string
  expiresIn :: number

text \<open>
  A JavaScript value built from JSON. An object is the list of its own enumerable
  properties in the order of \<open>Object.entries\<close>, with distinct names, and its
  prototype: \<open>None\<close> is \<open>Object.prototype\<close>, the prototype of every object that
  \<open>JSON.parse\<close> or the literal \<open>{}\<close> creates; \<open>Some p\<close> is a prototype installed
  through the \<open>__proto__\<close> setter, with \<open>JNull\<close> for no prototype. \<open>JSON.parse\<close>
  keeps a member named \<open>__proto__\<close> as an own property. Numbers are opaque to the
  functions that walk these values and are kept as integers.
\<close>

datatype json =
    JNull
  | JBool bool
  | JNum int
  | JStr string
  | JArr "json list"
  | JObj "(string \<times> json) list" "json option"

record request =
  req_authorization :: "string option"
  req_user :: "auth_user option"
  req_body :: json
  req_query :: "(string \<times> string) list"
  req_params :: "(string \<times> string) list"

text \<open>A row of the resource table; \<open>res_columns\<close> stands for the business columns.\<close>

record resource =
  res_id :: string
  ownerId :: string
  res_columns :: json

section \<open>Strings\<close>

text \<open>\<open>String.prototype.startsWith\<close> and \<open>String.prototype.includes\<close>.\<close>

fun startsWith :: "string \<Rightarrow> string \<Rightarrow> bool" where
  "startsWith s [] = True"
| "startsWith [] (p # ps) = False"
| "startsWith (c # cs) (p # ps) = (c = p \<and> startsWith cs ps)"

fun includes_str :: "string \<Rightarrow> string \<Rightarrow> bool" where
  "includes_str [] sub = (sub = [])"
| "includes_str (c # cs) sub = (startsWith (c # cs) sub \<or> includes_str cs sub)"

text \<open>\<open>Array.prototype.join\<close> on strings.\<close>

fun join :: "string \<Rightarrow> string list \<Rightarrow> string" where
  "join sep [] = []"
| "join sep [x] = x"
| "join sep (x # y # ys) = x @ sep @ join sep (y # ys)"

text \<open>The decimal numeral of a natural number, as \<open>String(n)\<close> prints an array index.\<close>

definition digit_char :: "nat \<Rightarrow> char" where
  "digit_char d = char_of (48 + d)"

function decimal :: "nat \<Rightarrow> string" where
  "decimal n = (if n < 10 then [digit_char n] else decimal (n div 10) @ [digit_char (n mod 10)])"
  by pat_completeness auto
termination
  by (relation "measure id") auto

declare decimal.simps [simp del]

section \<open>JavaScript objects\<close>

text \<open>
  \<open>Object.entries\<close> of an object is the list of its own properties; of an array, the
  elements under their indices; of a number or a boolean it is empty.
\<close>

definition entries :: "json \<Rightarrow> (string \<times> json) list" where
  "entries obj =
     (case obj of
        JObj props proto \<Rightarrow> props
      | JArr items \<Rightarrow> zip (map decimal [0..<length items]) items
      | _ \<Rightarrow> [])"

text \<open>The object literal \<open>{}\<close>, and \<open>typeof v === 'object'\<close>.\<close>

definition emptyObject :: json where
  "emptyObject = JObj [] None"

definition typeof_object :: "json \<Rightarrow> bool" where
  "typeof_object v =
     (case v of JObj props proto \<Rightarrow> True | JArr items \<Rightarrow> True | JNull \<Rightarrow> True | _ \<Rightarrow> False)"

text \<open>
  The assignment \<open>target[key] = v\<close> to an object that was created by \<open>{}\<close> and has no
  own property \<open>key\<close> yet. For every name but \<open>__proto__\<close> it adds an own property.
  The name \<open>__proto__\<close> is an accessor inherited from \<open>Object.prototype\<close>: the
  assignment calls its setter, which replaces the prototype of the target when \<open>v\<close> is
  an object or \<open>null\<close> and does nothing otherwise; no own property is added. Property
  names are distinct, so \<open>__proto__\<close> is assigned at most once per object.
\<close>

fun assign :: "json \<Rightarrow> string \<Rightarrow> json \<Rightarrow> json" where
  "assign (JObj props proto) key v =
     (if key = ''__proto__''
      then (if typeof_object v then JObj props (Some v) else JObj props proto)
      else JObj (props @ [(key, v)]) proto)"
| "assign target key v = target"

lemma item_size: "x \<in> set xs \<Longrightarrow> size x \<le> size_list size xs" for x :: json
  using size_list_estimation' [of x xs "size x" size] by simp

lemma entries_size: "(k, v) \<in> set (entries obj) \<Longrightarrow> size v < size obj"
proof (cases obj)
  case (JArr items)
  assume "(k, v) \<in> set (entries obj)"
  then have "v \<in> set items"
    using JArr by (auto simp: entries_def dest: set_zip_rightD)
  then show ?thesis
    using JArr item_size [of v items] by simp
next
  case (JObj props proto)
  assume "(k, v) \<in> set (entries obj)"
  then have "(k, v) \<in> set props"
    using JObj by (simp add: entries_def)
  then have "size_prod (\<lambda>_. 0) size (k, v) \<le> size_list (size_prod (\<lambda>_. 0) size) props"
    by (simp add: size_list_estimation')
  then show ?thesis
    using JObj by simp
qed (simp_all add: entries_def)

section \<open>Authentication service (services/auth.service.ts)\<close>

text \<open>
  The exceptions \<open>jwt.verify\<close> can throw. In \<open>jsonwebtoken\<close> the classes
  \<open>TokenExpiredError\<close> and \<open>NotBeforeError\<close> extend \<open>JsonWebTokenError\<close>;
  \<open>OtherError\<close> is any exception outside that hierarchy. Each carries the library's
  message.
\<close>

datatype jwt_error =
    TokenExpiredError string
  | NotBeforeError string
  | JsonWebTokenError string
  | OtherError string

definition instanceof_TokenExpiredError :: "jwt_error \<Rightarrow> bool" where
  "instanceof_TokenExpiredError e = (case e of TokenExpiredError m \<Rightarrow> True | _ \<Rightarrow> False)"

definition instanceof_JsonWebTokenError :: "jwt_error \<Rightarrow> bool" where
  "instanceof_JsonWebTokenError e = (case e of OtherError m \<Rightarrow> False | _ \<Rightarrow> True)"

text \<open>\<open>jwt.verify(token, secret)\<close>: the decoded payload, or the exception thrown.\<close>

type_synonym jwt_verify = "string \<Rightarrow> string \<Rightarrow> jwt_error + JwtPayload"

definition verifyToken :: "jwt_verify \<Rightarrow> string \<Rightarrow> string \<Rightarrow> app_error + JwtPayload" where
  "verifyToken jwt_verify jwtSecret token =
     (case jwt_verify token jwtSecret of
        Inr decoded \<Rightarrow> Inr decoded
      | Inl error \<Rightarrow>
          if instanceof_TokenExpiredError error then Inl (UnauthorizedError ''Token has expired'')
          else if instanceof_JsonWebTokenError error then Inl (UnauthorizedError ''Invalid token'')
          else Inl (UnauthorizedError ''Token verification failed''))"

text \<open>
  \<open>parseExpirationTime\<close>. The regular expression of the source is anchored at both
  ends and has two groups, one or more digits and one letter among s, m, h, d: it matches
  a string that is one or more ASCII digits followed by exactly one of the four unit letters
  (without the multiline flag the end anchor matches at the end of the input only);
  \<open>regex_match\<close> returns the two capture groups.
\<close>

definition isDigit :: "char \<Rightarrow> bool" where
  "isDigit c = (48 \<le> (of_char c :: nat) \<and> (of_char c :: nat) \<le> 57)"

definition regex_match :: "string \<Rightarrow> (string \<times> char) option" where
  "regex_match expiration =
     (if expiration = [] then None
      else let value = butlast expiration; unit = last expiration
           in if value \<noteq> [] \<and> list_all isDigit value \<and> unit \<in> set ''smhd''
              then Some (value, unit) else None)"

text \<open>
  \<open>parseInt(value, 10)\<close> on a string of digits: the integer that the digits denote
  (\<open>digits_value\<close>), as a number, that is, rounded to the nearest double. (For more than
  20 significant digits ECMAScript lets an implementation round a truncated numeral
  instead; the model takes the correctly rounded value.)
\<close>

definition digits_value :: "string \<Rightarrow> nat" where
  "digits_value value = foldl (\<lambda>acc c. 10 * acc + ((of_char c :: nat) - 48)) 0 value"

definition parseInt :: "string \<Rightarrow> number" where
  "parseInt value = round_double (digits_value value)"

definition parseExpirationTime :: "string \<Rightarrow> number" where
  "parseExpirationTime expiration =
     (case regex_match expiration of
        None \<Rightarrow> Finite 86400
      | Some (value, unit) \<Rightarrow>
          let num = parseInt value
          in if unit = CHR ''s'' then num
             else if unit = CHR ''m'' then dmul num (Finite 60)
             else if unit = CHR ''h'' then dmul num (Finite 3600)
             else if unit = CHR ''d'' then dmul num (Finite 86400)
             else Finite 86400)"

text \<open>\<open>jwt.sign(payload, secret, {expiresIn})\<close> is a parameter.\<close>

type_synonym jwt_sign = "JwtPayload \<Rightarrow> string \<Rightarrow> string \<Rightarrow> string"

definition generateLoginResponse :: "jwt_sign \<Rightarrow> string \<Rightarrow> string \<Rightarrow> user \<Rightarrow> LoginResponse" where
  "generateLoginResponse jwt_sign jwtSecret jwtExpiresIn u =
     (let payload = \<lparr>jwt_userId = user_id u, jwt_email = user_email u, jwt_role = user_role u,
                      jwt_iat = None, jwt_exp = None\<rparr>;
          token = jwt_sign payload jwtSecret jwtExpiresIn;
          expires = parseExpirationTime jwtExpiresIn
      in \<lparr>lr_user = \<lparr>lu_id = user_id u, lu_email = user_email u, lu_name = user_name u,
                      lu_role = user_role u\<rparr>,
          accessToken = token, expiresIn = expires\<rparr>)"

text \<open>
  \<open>login\<close>. \<open>findByEmail\<close> is the user repository's lookup and \<open>compare\<close> is
  \<open>bcrypt.compare(plaintext, hash)\<close>.
\<close>

definition login ::
  "(string \<Rightarrow> user option) \<Rightarrow> (string \<Rightarrow> string \<Rightarrow> bool) \<Rightarrow> jwt_sign \<Rightarrow> string \<Rightarrow> string
     \<Rightarrow> LoginDto \<Rightarrow> app_error + LoginResponse" where
  "login findByEmail compare jwt_sign jwtSecret jwtExpiresIn data =
     (case findByEmail (dto_email data) of
        None \<Rightarrow> Inl (UnauthorizedError ''Invalid credentials'')
      | Some u \<Rightarrow>
          if \<not> user_isActive u then Inl (UnauthorizedError ''Account is inactive'')
          else if \<not> compare (dto_password data) (user_password u)
          then Inl (UnauthorizedError ''Invalid credentials'')
          else Inr (generateLoginResponse jwt_sign jwtSecret jwtExpiresIn u))"

section \<open>Authentication middleware (middleware/auth.middleware.ts)\<close>

text \<open>
  \<open>authenticate\<close> returns the request as it leaves the middleware and the call of
  \<open>next\<close>. \<open>findById\<close> is the user repository's lookup by id.
\<close>

definition authenticate ::
  "jwt_verify \<Rightarrow> string \<Rightarrow> (string \<Rightarrow> user option) \<Rightarrow> request \<Rightarrow> request \<times> next_call" where
  "authenticate jwt_verify jwtSecret findById req =
     (case req_authorization req of
        None \<Rightarrow> (req, NextError (App (UnauthorizedError ''No token provided'')))
      | Some authHeader \<Rightarrow>
          if authHeader = [] \<or> \<not> startsWith authHeader ''Bearer ''
          then (req, NextError (App (UnauthorizedError ''No token provided'')))
          else
            let token = drop 7 authHeader
            in case verifyToken jwt_verify jwtSecret token of
                 Inl error \<Rightarrow> (req, NextError (App error))
               | Inr decoded \<Rightarrow>
                   (case findById (jwt_userId decoded) of
                      None \<Rightarrow> (req, NextError (App (UnauthorizedError ''User not found'')))
                    | Some u \<Rightarrow>
                        if \<not> user_isActive u
                        then (req, NextError (App (UnauthorizedError ''Account is inactive'')))
                        else (req\<lparr>req_user := Some \<lparr>au_id = user_id u, au_email = user_email u,
                                                     au_role = user_role u,
                                                     au_isActive = user_isActive u\<rparr>\<rparr>,
                              Next)))"

section \<open>Role and ownership gates (middleware/rbac.middleware.ts)\<close>

definition requireRole :: "Role list \<Rightarrow> request \<Rightarrow> next_call" where
  "requireRole allowedRoles req =
     (case req_user req of
        None \<Rightarrow> NextError (App (UnauthorizedError ''Authentication required''))
      | Some u \<Rightarrow>
          if au_role u \<notin> set allowedRoles
          then NextError (App (ForbiddenError
                 (''Access denied. Required role(s): '' @ join '', '' (map role_name allowedRoles))))
          else Next)"

definition requireAdmin :: "request \<Rightarrow> next_call" where
  "requireAdmin = requireRole [ADMIN]"

definition requireUserOrAdmin :: "request \<Rightarrow> next_call" where
  "requireUserOrAdmin = requireRole [USER, ADMIN]"

text \<open>
  \<open>requireOwnershipOrAdmin\<close>: after the early return for administrators the source reads
  the resource id and the user id and calls \<open>next()\<close> without comparing them.
\<close>

definition requireOwnershipOrAdmin :: "string \<Rightarrow> request \<Rightarrow> next_call" where
  "requireOwnershipOrAdmin resourceIdParam req =
     (case req_user req of
        None \<Rightarrow> NextError (App (UnauthorizedError ''Authentication required''))
      | Some u \<Rightarrow>
          if au_role u = ADMIN then Next
          else
            let resourceId = map_of (req_params req) resourceIdParam;
                userId = au_id u
            in Next)"

section \<open>Resource service (services/resource.service.ts)\<close>

text \<open>
  The resource table is a finite map from ids to rows: \<open>findById\<close> of the repository is
  the lookup, \<open>delete\<close> removes the row. Two collaborators are parameters:
  \<open>xss\<close>, the string filter that \<open>sanitizeInput\<close> of utils/helpers.ts wraps, and
  \<open>merge\<close>, the effect of a Prisma update with the given data on a row.
\<close>

type_synonym resource_table = "string \<Rightarrow> resource option"

definition getById :: "resource_table \<Rightarrow> string \<Rightarrow> string \<Rightarrow> Role \<Rightarrow> app_error + resource" where
  "getById tbl ident userId userRole =
     (case tbl ident of
        None \<Rightarrow> Inl (NotFoundError ''Resource not found'')
      | Some r \<Rightarrow>
          if userRole \<noteq> ADMIN \<and> ownerId r \<noteq> userId
          then Inl (ForbiddenError ''You do not have permission to view this resource'')
          else Inr r)"

text \<open>
  \<open>sanitizeObject\<close> of utils/helpers.ts: the loop over the entries assigns every
  property of a fresh object; \<open>helpers_sanitizeValue\<close> is the chain of tests in its body.
\<close>

function helpers_sanitizeObject :: "(string \<Rightarrow> string) \<Rightarrow> json \<Rightarrow> json"
  and helpers_sanitizeValue :: "(string \<Rightarrow> string) \<Rightarrow> json \<Rightarrow> json" where
  "helpers_sanitizeObject xss obj =
     foldl (\<lambda>sanitized (key, value). assign sanitized key (helpers_sanitizeValue xss value))
       emptyObject (entries obj)"
| "helpers_sanitizeValue xss value =
     (case value of
        JStr s \<Rightarrow> JStr (xss s)
      | JArr items \<Rightarrow> JArr (map (\<lambda>item. case item of JStr s \<Rightarrow> JStr (xss s) | _ \<Rightarrow> item) items)
      | JObj props proto \<Rightarrow> helpers_sanitizeObject xss value
      | _ \<Rightarrow> value)"
  by pat_completeness auto
termination
  apply (relation "measure (\<lambda>x. case x of Inl (xss, obj) \<Rightarrow> 2 * size obj
                                   | Inr (xss, v) \<Rightarrow> 2 * size v + 1)")
    apply (auto dest!: entries_size)
  done

declare helpers_sanitizeObject.simps [simp del] helpers_sanitizeValue.simps [simp del]

definition update ::
  "(string \<Rightarrow> string) \<Rightarrow> (json \<Rightarrow> resource \<Rightarrow> resource) \<Rightarrow> resource_table
     \<Rightarrow> string \<Rightarrow> json \<Rightarrow> string \<Rightarrow> Role \<Rightarrow> app_error + (resource \<times> resource_table)" where
  "update xss merge tbl ident data userId userRole =
     (case tbl ident of
        None \<Rightarrow> Inl (NotFoundError ''Resource not found'')
      | Some r \<Rightarrow>
          if userRole \<noteq> ADMIN \<and> ownerId r \<noteq> userId
          then Inl (ForbiddenError ''You do not have permission to update this resource'')
          else
            let sanitizedData = helpers_sanitizeObject xss data;
                updatedResource = merge sanitizedData r
            in Inr (updatedResource, tbl(ident \<mapsto> updatedResource)))"

definition delete_resource ::
  "resource_table \<Rightarrow> string \<Rightarrow> string \<Rightarrow> Role \<Rightarrow> app_error + resource_table" where
  "delete_resource tbl ident userId userRole =
     (case tbl ident of
        None \<Rightarrow> Inl (NotFoundError ''Resource not found'')
      | Some r \<Rightarrow>
          if userRole \<noteq> ADMIN \<and> ownerId r \<noteq> userId
          then Inl (ForbiddenError ''You do not have permission to delete this resource'')
          else Inr (tbl(ident := None)))"

section \<open>Validation and body sanitizing (middleware/validate.middleware.ts)\<close>

text \<open>
  One issue of a \<open>ZodError\<close>: the path to the offending value (property names and array
  indices) and the message.
\<close>

datatype path_segment = Prop string | Index nat

record zod_issue =
  issue_path :: "path_segment list"
  issue_message :: string

text \<open>
  What \<open>schema.parseAsync\<close> does with the triple of body, query and params: it resolves,
  it rejects with a \<open>ZodError\<close> carrying its issues, or it rejects with something else.
\<close>

datatype parse_result = Parsed | ZodError "zod_issue list" | Rejected thrown

type_synonym zod_schema = "json \<Rightarrow> (string \<times> string) list \<Rightarrow> (string \<times> string) list \<Rightarrow> parse_result"

definition segment_text :: "path_segment \<Rightarrow> string" where
  "segment_text seg = (case seg of Prop name \<Rightarrow> name | Index i \<Rightarrow> decimal i)"

definition format_issue :: "zod_issue \<Rightarrow> string" where
  "format_issue err =
     (let joined = join ''.'' (map segment_text (issue_path err));
          path = (if joined = [] then ''unknown'' else joined)
      in path @ '': '' @ issue_message err)"

definition validate :: "zod_schema \<Rightarrow> request \<Rightarrow> request \<times> next_call" where
  "validate schema req =
     (case schema (req_body req) (req_query req) (req_params req) of
        Parsed \<Rightarrow> (req, Next)
      | ZodError issues \<Rightarrow>
          let errs = map format_issue issues
          in (req, NextError (App (ValidationError ''Validation failed'' (Some errs))))
      | Rejected error \<Rightarrow> (req, NextError error))"

text \<open>
  The test of the sanitizer on a property name. \<open>sanitizeObject\<close> is private to the
  module and is only ever applied to objects and arrays.
\<close>

definition dangerous :: "string \<Rightarrow> bool" where
  "dangerous key = (startsWith key ''$'' \<or> includes_str key ''..'')"

text \<open>
  \<open>sanitizeObject\<close>: the loop over the entries, which skips a dangerous key and
  otherwise assigns the property of the fresh object \<open>sanitized\<close>. Two parts of the loop
  body are named: \<open>sanitizeValue\<close> is the \<open>if\<close>/\<open>else if\<close>/\<open>else\<close> chain
  applied to a property value, \<open>sanitizeItem\<close> the arrow function mapped over an array
  value. An array inside an array satisfies \<open>typeof item === 'object'\<close> and is handed to
  \<open>sanitizeObject\<close>, which returns an object keyed by the indices.
\<close>

function sanitizeObject :: "json \<Rightarrow> json"
  and sanitizeValue :: "json \<Rightarrow> json"
  and sanitizeItem :: "json \<Rightarrow> json" where
  "sanitizeObject obj =
     foldl (\<lambda>sanitized (key, value).
              if dangerous key then sanitized
              else assign sanitized key (sanitizeValue value))
       emptyObject (entries obj)"
| "sanitizeValue value =
     (case value of
        JObj props proto \<Rightarrow> sanitizeObject value
      | JArr items \<Rightarrow> JArr (map sanitizeItem items)
      | _ \<Rightarrow> value)"
| "sanitizeItem item =
     (case item of
        JObj props proto \<Rightarrow> sanitizeObject item
      | JArr items \<Rightarrow> sanitizeObject item
      | _ \<Rightarrow> item)"
  by pat_completeness auto
termination
  apply (relation "measure (\<lambda>x. case x of Inl obj \<Rightarrow> 2 * size obj
                                   | Inr (Inl v) \<Rightarrow> 2 * size v + 1
                                   | Inr (Inr i) \<Rightarrow> 2 * size i + 1)")
      apply (auto dest!: entries_size item_size)
  done

declare sanitizeObject.simps [simp del] sanitizeValue.simps [simp del]
  sanitizeItem.simps [simp del]

text \<open>
  \<open>sanitizeBody\<close>, as a function of the body: the guard \<open>req.body && typeof req.body
  === 'object'\<close> holds for objects and arrays and fails for \<open>null\<close> and the scalars.
\<close>

definition sanitizeBody :: "json \<Rightarrow> json" where
  "sanitizeBody body =
     (case body of
        JObj props proto \<Rightarrow> sanitizeObject body
      | JArr items \<Rightarrow> sanitizeObject body
      | _ \<Rightarrow> body)"

definition sanitizeBody_middleware :: "request \<Rightarrow> request \<times> next_call" where
  "sanitizeBody_middleware req = (req\<lparr>req_body := sanitizeBody (req_body req)\<rparr>, Next)"

text \<open>
  Observations on values, used to state what the sanitizer keeps: \<open>lookup v key\<close> is
  the own property \<open>v[key]\<close> (an array has its indices as property names), \<open>get\<close>
  follows a path of own property names, \<open>isScalar\<close> holds of everything but objects and
  arrays. A key is dropped by the sanitizer when it is dangerous or is \<open>__proto__\<close>.
  \<open>scenarioF\<close> is the body of scenario F, \<open>proto_body\<close> the parsed body
  \<open>{"__proto__": 5, "a": 1}\<close>.
\<close>

definition lookup :: "json \<Rightarrow> string \<Rightarrow> json option" where
  "lookup v key = map_of (entries v) key"

fun get :: "json \<Rightarrow> string list \<Rightarrow> json option" where
  "get v [] = Some v"
| "get v (key # path) = (case lookup v key of None \<Rightarrow> None | Some w \<Rightarrow> get w path)"

definition isScalar :: "json \<Rightarrow> bool" where
  "isScalar v = (case v of JObj props proto \<Rightarrow> False | JArr items \<Rightarrow> False | _ \<Rightarrow> True)"

definition scenarioF :: json where
  "scenarioF = JObj [(''name'', JStr ''$ne''), (''profile'', JObj [(''bio..'', JStr ''x'')] None)] None"

definition proto_body :: json where
  "proto_body = JObj [(''__proto__'', JNum 5), (''a'', JNum 1)] None"

definition sanitized_from :: "json \<Rightarrow> json \<Rightarrow> bool" where
  "sanitized_from v v' = (v' = sanitizeValue v \<or> v' = sanitizeItem v)"

definition dropped :: "string \<Rightarrow> bool" where
  "dropped key = (dangerous key \<or> key = ''__proto__'')"

section \<open>Rate limiting (middleware/rateLimiter.middleware.ts)\<close>

text \<open>
  The source configures three limiters and their handlers; the options below are the ones
  it sets. Times are in milliseconds.
\<close>

record rate_limit_options =
  windowMs :: nat
  max_requests :: nat
  skipSuccessfulRequests :: bool
  handler_message :: string

definition apiLimiter :: rate_limit_options where
  "apiLimiter = \<lparr>windowMs = 15 * 60 * 1000, max_requests = 100, skipSuccessfulRequests = False,
     handler_message = ''Too many requests, please try again later''\<rparr>"

definition authLimiter :: rate_limit_options where
  "authLimiter = \<lparr>windowMs = 15 * 60 * 1000, max_requests = 5, skipSuccessfulRequests = True,
     handler_message = ''Too many authentication attempts, please try again later''\<rparr>"

definition createResourceLimiter :: rate_limit_options where
  "createResourceLimiter = \<lparr>windowMs = 60 * 60 * 1000, max_requests = 50,
     skipSuccessfulRequests = False,
     handler_message = ''Too many resources created, please try again later''\<rparr>"

text \<open>The outcome for one request: it goes on, or the handler answers with a status.\<close>

datatype limiter_result = Allow | Deny nat string

definition handler :: "rate_limit_options \<Rightarrow> limiter_result" where
  "handler pol = Deny 429 (handler_message pol)"

record bucket =
  windowStart :: nat
  count :: nat

type_synonym buckets = "string \<Rightarrow> bucket option"

text \<open>
  Modelled from the spec: the counting of requests, which the source leaves to the library
  \<open>express-rate-limit\<close>. Section 4.3 of the specification: one bucket per key; on each
  call, if there is no bucket or the window has expired, the bucket is created or reset
  with count 1 and the request is allowed; otherwise the count is incremented and the
  request is denied if the resulting count exceeds the maximum, without decrementing.
\<close>

definition check :: "rate_limit_options \<Rightarrow> string \<Rightarrow> nat \<Rightarrow> buckets \<Rightarrow> limiter_result \<times> buckets" where
  "check pol key now bs =
     (case bs key of
        None \<Rightarrow> (Allow, bs(key \<mapsto> \<lparr>windowStart = now, count = 1\<rparr>))
      | Some b \<Rightarrow>
          if windowStart b + windowMs pol \<le> now
          then (Allow, bs(key \<mapsto> \<lparr>windowStart = now, count = 1\<rparr>))
          else
            let c = count b + 1
            in (if c > max_requests pol then handler pol else Allow,
                bs(key \<mapsto> b\<lparr>count := c\<rparr>)))"

text \<open>
  Modelled from the spec: a policy may exclude successful attempts from the count
  (\<open>skipSuccessfulRequests\<close> in the source, "Don't count successful requests"). When the
  response of an allowed request is successful (status below 400), its increment is taken
  back.
\<close>

definition finish :: "rate_limit_options \<Rightarrow> string \<Rightarrow> nat \<Rightarrow> buckets \<Rightarrow> buckets" where
  "finish pol key status bs =
     (if skipSuccessfulRequests pol \<and> status < 400
      then (case bs key of
              None \<Rightarrow> bs
            | Some b \<Rightarrow> bs(key \<mapsto> b\<lparr>count := count b - 1\<rparr>))
      else bs)"

text \<open>
  One request at time \<open>now\<close> whose downstream handler, if reached, answers with
  \<open>status\<close>; and a sequence of such requests from one key, each finished before the next
  arrives.
\<close>

definition serve :: "rate_limit_options \<Rightarrow> string \<Rightarrow> nat \<times> nat \<Rightarrow> buckets \<Rightarrow> limiter_result \<times> buckets" where
  "serve pol key request bs =
     (case check pol key (fst request) bs of
        (Allow, bs') \<Rightarrow> (Allow, finish pol key (snd request) bs')
      | (Deny status msg, bs') \<Rightarrow> (Deny status msg, bs'))"

fun serve_all :: "rate_limit_options \<Rightarrow> string \<Rightarrow> (nat \<times> nat) list \<Rightarrow> buckets \<Rightarrow> limiter_result list" where
  "serve_all pol key [] bs = []"
| "serve_all pol key (request # requests) bs =
     (case serve pol key request bs of (res, bs') \<Rightarrow> res # serve_all pol key requests bs')"

text \<open>The buckets after a sequence of requests.\<close>

fun after_all :: "rate_limit_options \<Rightarrow> string \<Rightarrow> (nat \<times> nat) list \<Rightarrow> buckets \<Rightarrow> buckets" where
  "after_all pol key [] bs = bs"
| "after_all pol key (request # requests) bs =
     after_all pol key requests (snd (serve pol key request bs))"

text \<open>
  A request is counted unless the policy skips successful requests and the response is
  successful.
\<close>

definition counted :: "rate_limit_options \<Rightarrow> nat \<Rightarrow> bool" where
  "counted pol status = (\<not> (skipSuccessfulRequests pol \<and> status < 400))"

section \<open>Three ways to sum to n (problem 4)\<close>

text \<open>
  The three functions on numbers, with the arithmetic of doubles; negative and fractional
  arguments are outside the embedding. In \<open>n * (n + 1) / 2\<close> the sum and the product
  are rounded and the division by 2 is exact.
\<close>

definition sum_to_n_a :: "number \<Rightarrow> number" where
  "sum_to_n_a n = half (dmul n (dadd n (Finite 1)))"

text \<open>
  The \<open>for\<close> loop of \<open>sum_to_n_b\<close> with its two variables \<open>i\<close> and \<open>sum\<close>. The loop
  need not end (from \<open>2^53\<close> on, \<open>i++\<close> leaves \<open>i\<close> unchanged), so the result is
  optional: \<open>None\<close> stands for a loop that never returns.
\<close>

partial_function (option) sum_to_n_b_loop :: "number \<Rightarrow> number \<Rightarrow> number \<Rightarrow> number option" where
  "sum_to_n_b_loop n i s =
     (if dle i n then sum_to_n_b_loop n (dadd i (Finite 1)) (dadd s i) else Some s)"

definition sum_to_n_b :: "number \<Rightarrow> number option" where
  "sum_to_n_b n = sum_to_n_b_loop n (Finite 1) (Finite 0)"

text \<open>
  \<open>sum_to_n_c\<close> recurses on the call stack. The first argument is the number of further
  frames the stack can hold when the function is entered; a call that needs one more
  throws \<open>RangeError\<close> (maximum call stack size exceeded).
\<close>

datatype js_error = RangeError

fun sum_to_n_c :: "nat \<Rightarrow> number \<Rightarrow> js_error + number" where
  "sum_to_n_c 0 n = (if dle n (Finite 1) then Inr n else Inl RangeError)"
| "sum_to_n_c (Suc stack) n =
     (if dle n (Finite 1) then Inr n
      else case sum_to_n_c stack (minus_one n) of
             Inl e \<Rightarrow> Inl e
           | Inr r \<Rightarrow> Inr (dadd n r))"

section \<open>Example data\<close>

text \<open>
  A deployment with one inactive principal, Bob, and a token library that accepts
  the token \<open>good\<close> and decodes it to Bob's id.
\<close>

definition bob :: user where
  "bob = \<lparr>user_id = ''u2'', user_email = ''bob@example.com'', user_password = ''hash-of-bob'',
     user_name = ''Bob'', user_role = USER, user_isActive = False\<rparr>"

definition bob_payload :: JwtPayload where
  "bob_payload = \<lparr>jwt_userId = ''u2'', jwt_email = ''bob@example.com'', jwt_role = USER,
     jwt_iat = Some 0, jwt_exp = Some 86400\<rparr>"

definition accepting_verify :: jwt_verify where
  "accepting_verify token secret =
     (if token = ''good'' then Inr bob_payload else Inl (JsonWebTokenError ''jwt malformed''))"

definition users_by_id :: "string \<Rightarrow> user option" where
  "users_by_id ident = (if ident = ''u2'' then Some bob else None)"

definition bearer_request :: request where
  "bearer_request = \<lparr>req_authorization = Some ''Bearer good'', req_user = None,
     req_body = JNull, req_query = [], req_params = []\<rparr>"

text \<open>A token library that reports every token as expired.\<close>

definition expired_verify :: jwt_verify where
  "expired_verify token secret = Inl (TokenExpiredError ''jwt expired'')"

text \<open>Requests that arrive at the role gate with a principal attached.\<close>

definition user_request :: request where
  "user_request = \<lparr>req_authorization = None,
     req_user = Some \<lparr>au_id = ''u1'', au_email = ''ann@example.com'', au_role = USER,
                      au_isActive = True\<rparr>,
     req_body = JNull, req_query = [], req_params = [(''id'', ''r1'')]\<rparr>"

definition ann :: auth_user where
  "ann = \<lparr>au_id = ''u1'', au_email = ''ann@example.com'', au_role = USER, au_isActive = True\<rparr>"

text \<open>
  A user table by email that holds the inactive Bob, a password check that accepts only
  the stored string, and a signer that returns a fixed token.
\<close>

definition users_by_email :: "string \<Rightarrow> user option" where
  "users_by_email email = (if email = ''bob@example.com'' then Some bob else None)"

definition plain_compare :: "string \<Rightarrow> string \<Rightarrow> bool" where
  "plain_compare password hash = (password = hash)"

definition fixed_sign :: jwt_sign where
  "fixed_sign payload secret expires = ''token''"

definition ghost_login :: LoginDto where
  "ghost_login = \<lparr>dto_email = ''ghost@example.com'', dto_password = ''guess''\<rparr>"

definition bob_wrong_login :: LoginDto where
  "bob_wrong_login = \<lparr>dto_email = ''bob@example.com'', dto_password = ''guess''\<rparr>"

text \<open>The same table with an active Carol.\<close>

definition carol :: user where
  "carol = \<lparr>user_id = ''u3'', user_email = ''carol@example.com'', user_password = ''hash-of-carol'',
     user_name = ''Carol'', user_role = USER, user_isActive = True\<rparr>"

definition active_users_by_email :: "string \<Rightarrow> user option" where
  "active_users_by_email email = (if email = ''carol@example.com'' then Some carol else None)"

definition carol_wrong_login :: LoginDto where
  "carol_wrong_login = \<lparr>dto_email = ''carol@example.com'', dto_password = ''guess''\<rparr>"

text \<open>A resource table with one resource, owned by Ann.\<close>

definition r1 :: resource where
  "r1 = \<lparr>res_id = ''r1'', ownerId = ''u1'', res_columns = JObj [(''title'', JStr ''Notes'')] None\<rparr>"

definition one_resource :: resource_table where
  "one_resource ident = (if ident = ''r1'' then Some r1 else None)"

text \<open>A schema that reports two issues for every request.\<close>

definition two_issues :: "zod_issue list" where
  "two_issues =
     [\<lparr>issue_path = [Prop ''body'', Prop ''title''],
        issue_message = ''Title must be at least 3 characters''\<rparr>,
      \<lparr>issue_path = [Prop ''body'', Prop ''tags'', Index 0], issue_message = ''Expected string''\<rparr>]"

definition failing_schema :: zod_schema where
  "failing_schema b q p = ZodError two_issues"

text \<open>
  Six login attempts from one address, one a minute, all failing with 401 or all
  succeeding with 200; a limiter that has seen no request; a policy with maximum 0.
\<close>

definition no_buckets :: buckets where
  "no_buckets key = None"

definition failed_logins :: "(nat \<times> nat) list" where
  "failed_logins = [(0, 401), (60000, 401), (120000, 401), (180000, 401), (240000, 401), (300000, 401)]"

definition successful_logins :: "(nat \<times> nat) list" where
  "successful_logins = [(0, 200), (60000, 200), (120000, 200), (180000, 200), (240000, 200), (300000, 200)]"

definition zero_policy :: rate_limit_options where
  "zero_policy = \<lparr>windowMs = 1000, max_requests = 0, skipSuccessfulRequests = False,
     handler_message = ''Too many requests''\<rparr>"

section \<open>Fields of the errors\<close>

lemma UnauthorizedError_fields:
  "kind (UnauthorizedError msg) = Unauthorized"
  "statusCode (UnauthorizedError msg) = 401"
  "message (UnauthorizedError msg) = msg"
  "errors (UnauthorizedError msg) = None"
  by (simp_all add: UnauthorizedError_def AppError_def)

lemma UnauthorizedError_inject: "UnauthorizedError a = UnauthorizedError b \<longleftrightarrow> a = b"
  by (auto simp: UnauthorizedError_def AppError_def)

lemma ForbiddenError_fields:
  "kind (ForbiddenError msg) = Forbidden"
  "statusCode (ForbiddenError msg) = 403"
  "message (ForbiddenError msg) = msg"
  by (simp_all add: ForbiddenError_def AppError_def)

lemma ValidationError_fields:
  "kind (ValidationError msg errs) = Validation"
  "statusCode (ValidationError msg errs) = 422"
  "message (ValidationError msg errs) = msg"
  "errors (ValidationError msg errs) = errs"
  by (simp_all add: ValidationError_def AppError_def)

section \<open>Decimal numerals\<close>

lemma digit_char_values:
  "digit_char 0 = CHR ''0''" "digit_char 1 = CHR ''1''" "digit_char 2 = CHR ''2''"
  "digit_char 3 = CHR ''3''" "digit_char 4 = CHR ''4''" "digit_char 5 = CHR ''5''"
  "digit_char 6 = CHR ''6''" "digit_char 7 = CHR ''7''" "digit_char 8 = CHR ''8''"
  "digit_char 9 = CHR ''9''" "digit_char (Suc 0) = CHR ''1''"
  unfolding digit_char_def by code_simp+

section \<open>Rounding to doubles\<close>

lemma bit_length_bounds: "2 ^ k \<le> m \<Longrightarrow> m < 2 ^ Suc k \<Longrightarrow> bit_length m = Suc k"
proof (induction k arbitrary: m)
  case 0
  then have "m = 1" by simp
  then show ?case by (simp add: bit_length.simps [of "Suc 0"] bit_length.simps [of 0])
next
  case (Suc k)
  from Suc.prems have "2 ^ k \<le> m div 2" "m div 2 < 2 ^ Suc k"
    by simp_all
  then have "bit_length (m div 2) = Suc k" by (rule Suc.IH)
  moreover have "m \<noteq> 0"
  proof
    assume "m = 0"
    with Suc.prems(1) show False by simp
  qed
  ultimately show ?case by (subst bit_length.simps) simp
qed

lemma bit_length_ge: "2 ^ k \<le> m \<Longrightarrow> Suc k \<le> bit_length m"
proof (induction k arbitrary: m)
  case 0
  then show ?case by (subst bit_length.simps) auto
next
  case (Suc k)
  from Suc.prems have "2 ^ k \<le> m div 2" by simp
  then have "Suc k \<le> bit_length (m div 2)" by (rule Suc.IH)
  moreover have "m \<noteq> 0"
  proof
    assume "m = 0"
    with Suc.prems show False by simp
  qed
  ultimately show ?case by (subst bit_length.simps) simp
qed

lemma round_double_small: "m < 2 ^ 53 \<Longrightarrow> round_double m = Finite m"
  by (simp add: round_double_def)

lemma round_double_even: 
  assumes "m < 2 ^ 54" and "even m"
  shows "round_double m = Finite m"
proof (cases "m < 2 ^ 53")
  case True
  then show ?thesis by (rule round_double_small)
next
  case False
  then have "bit_length m = 54"
    using bit_length_bounds [of 53 m] assms(1) by simp
  moreover have "m mod 2 = 0" "m div 2 * 2 = m" using assms(2) by auto
  moreover have "\<not> (2::nat) ^ 1024 \<le> m"
  proof -
    have "(2::nat) ^ 54 \<le> 2 ^ 1024" by (rule power_increasing) simp_all
    with assms(1) show ?thesis by simp
  qed
  ultimately show ?thesis using False by (simp add: round_double_def Let_def)
qed

lemma round_double_le: "m \<le> 2 ^ 53 \<Longrightarrow> round_double m = Finite m"
proof (cases "m < 2 ^ 53")
  case True
  then show ?thesis by (rule round_double_small)
next
  case False
  assume "m \<le> 2 ^ 53"
  with False have "m = 2 ^ 53" by simp
  then show ?thesis by (intro round_double_even) simp_all
qed

lemma round_double_big_even:
  assumes "2 ^ 53 \<le> m" and "round_double m = Finite p"
  shows "even p"
proof -
  define e where "e = bit_length m - 53"
  have "54 \<le> bit_length m" using bit_length_ge [OF assms(1)] by simp
  then have e: "0 < e" by (simp add: e_def)
  have big: "\<not> m < 2 ^ 53" using assms(1) by simp
  have "\<exists>q'. round_double m = (if 2 ^ 1024 \<le> q' * 2 ^ e then Infinity else Finite (q' * 2 ^ e))"
    unfolding round_double_def Let_def e_def by (simp only: big if_False) blast
  then obtain q' where "p = q' * 2 ^ e"
    using assms(2) by (auto split: if_splits)
  with e show ?thesis by simp
qed

lemma round_double_at:
  assumes "2 ^ (52 + e) \<le> m" and "m < 2 ^ (53 + e)" and "0 < e" and "e \<le> 970"
  shows "round_double m =
           Finite ((if 2 ^ e < 2 * (m mod 2 ^ e) \<or> (2 * (m mod 2 ^ e) = 2 ^ e \<and> odd (m div 2 ^ e))
                    then m div 2 ^ e + 1 else m div 2 ^ e) * 2 ^ e)"
proof -
  let ?q' = "if 2 ^ e < 2 * (m mod 2 ^ e) \<or> (2 * (m mod 2 ^ e) = 2 ^ e \<and> odd (m div 2 ^ e))
             then m div 2 ^ e + 1 else m div 2 ^ e"
  have len: "bit_length m = 53 + e"
    using bit_length_bounds [of "52 + e" m] assms(1,2) by simp
  have "(2::nat) ^ 53 \<le> 2 ^ (52 + e)"
    using assms(3) by (intro power_increasing) simp_all
  with assms(1) have big: "\<not> m < 2 ^ 53" by simp
  have "m div 2 ^ e < 2 ^ 53"
    using assms(2) by (simp add: less_mult_imp_div_less power_add)
  then have "?q' \<le> 2 ^ 53" by simp
  then have "?q' * 2 ^ e \<le> 2 ^ 53 * 2 ^ e" by (rule mult_right_mono) simp
  also have "\<dots> = 2 ^ (53 + e)" by (simp add: power_add)
  also have "\<dots> \<le> 2 ^ 1023" using assms(4) by (intro power_increasing) simp_all
  also have "\<dots> < (2::nat) ^ 1024" by (intro power_strict_increasing) simp_all
  finally have fin: "\<not> 2 ^ 1024 \<le> ?q' * 2 ^ e" by simp
  have "round_double m = (if 2 ^ 1024 \<le> ?q' * 2 ^ e then Infinity else Finite (?q' * 2 ^ e))"
    unfolding round_double_def Let_def len by (simp only: big if_False add_diff_cancel_left')
  with fin show ?thesis by (simp only: if_False)
qed


section \<open>Authentication re-resolves the principal\<close>

lemma authenticate_bearer:
  assumes "req_authorization req = Some (''Bearer '' @ token)"
    and "jwt_verify token jwtSecret = Inr decoded"
  shows "authenticate jwt_verify jwtSecret findById req =
     (case findById (jwt_userId decoded) of
        None \<Rightarrow> (req, NextError (App (UnauthorizedError ''User not found'')))
      | Some u \<Rightarrow>
          if \<not> user_isActive u
          then (req, NextError (App (UnauthorizedError ''Account is inactive'')))
          else (req\<lparr>req_user := Some \<lparr>au_id = user_id u, au_email = user_email u,
                                       au_role = user_role u, au_isActive = user_isActive u\<rparr>\<rparr>,
                Next))"
  using assms by (simp add: authenticate_def verifyToken_def)

lemma authenticate_Next:
  assumes "snd (authenticate jwt_verify jwtSecret findById req) = Next"
  shows "\<exists>token decoded u.
           req_authorization req = Some (''Bearer '' @ token)
           \<and> jwt_verify token jwtSecret = Inr decoded
           \<and> findById (jwt_userId decoded) = Some u \<and> user_isActive u
           \<and> req_user (fst (authenticate jwt_verify jwtSecret findById req)) =
               Some \<lparr>au_id = user_id u, au_email = user_email u, au_role = user_role u,
                     au_isActive = True\<rparr>"
proof -
  from assms obtain authHeader where h: "req_authorization req = Some authHeader"
    by (cases "req_authorization req") (auto simp: authenticate_def)
  from assms h have b: "startsWith authHeader ''Bearer ''"
    by (auto simp: authenticate_def split: if_splits)
  have pre: "authHeader = ''Bearer '' @ drop 7 authHeader"
  proof -
    have "startsWith s p \<Longrightarrow> s = p @ drop (length p) s" for s p
      by (induction s p rule: startsWith.induct) auto
    from this [OF b] show ?thesis by (simp add: numeral_eq_Suc)
  qed
  from assms h b obtain decoded where v: "verifyToken jwt_verify jwtSecret (drop 7 authHeader) = Inr decoded"
    by (cases "verifyToken jwt_verify jwtSecret (drop 7 authHeader)")
      (auto simp: authenticate_def Let_def split: if_splits)
  then have j: "jwt_verify (drop 7 authHeader) jwtSecret = Inr decoded"
    by (auto simp: verifyToken_def split: sum.splits if_splits)
  from assms h b v obtain u where u: "findById (jwt_userId decoded) = Some u"
    by (cases "findById (jwt_userId decoded)") (auto simp: authenticate_def Let_def split: if_splits)
  from assms h b v u have a: "user_isActive u"
    by (auto simp: authenticate_def Let_def split: if_splits)
  have "req_user (fst (authenticate jwt_verify jwtSecret findById req)) =
      Some \<lparr>au_id = user_id u, au_email = user_email u, au_role = user_role u, au_isActive = True\<rparr>"
    using h b v u a by (auto simp: authenticate_def Let_def split: if_splits)
  with pre h j u a show ?thesis by metis
qed

text \<open>
  Claim C1. For a request whose \<open>Authorization\<close> header is \<open>Bearer\<close> followed by a token
  that \<open>jwt.verify\<close> accepts (well formed, correctly signed, unexpired), the middleware
  looks the principal up in the store under the user id of the token. When the store has no
  such principal, or the principal is inactive, the request leaves unchanged (no user is
  attached) and \<open>next\<close> is called with an \<open>UnauthorizedError\<close> of status 401, so the
  downstream handler is not reached. When the principal is found and active, the attached
  user is built from the stored row. Hence, for any request at all, whenever the
  middleware calls \<open>next()\<close> the principal it attached was found in the store and active.
\<close>

theorem authenticate_rejects_missing_or_inactive:
  "(req_authorization req = Some (''Bearer '' @ token)
      \<and> jwt_verify token jwtSecret = Inr decoded
      \<and> (findById (jwt_userId decoded) = None
          \<or> (\<exists>u. findById (jwt_userId decoded) = Some u \<and> \<not> user_isActive u))
     \<longrightarrow> (\<exists>e. authenticate jwt_verify jwtSecret findById req = (req, NextError (App e))
              \<and> kind e = Unauthorized \<and> statusCode e = 401))
   \<and> (req_authorization req = Some (''Bearer '' @ token)
      \<and> jwt_verify token jwtSecret = Inr decoded
      \<and> findById (jwt_userId decoded) = Some u \<and> user_isActive u
     \<longrightarrow> authenticate jwt_verify jwtSecret findById req =
          (req\<lparr>req_user := Some \<lparr>au_id = user_id u, au_email = user_email u,
                                 au_role = user_role u, au_isActive = True\<rparr>\<rparr>, Next))
   \<and> (snd (authenticate jwt_verify jwtSecret findById req) = Next
     \<longrightarrow> (\<exists>tok dec p. req_authorization req = Some (''Bearer '' @ tok)
              \<and> jwt_verify tok jwtSecret = Inr dec
              \<and> findById (jwt_userId dec) = Some p \<and> user_isActive p
              \<and> req_user (fst (authenticate jwt_verify jwtSecret findById req)) =
                  Some \<lparr>au_id = user_id p, au_email = user_email p, au_role = user_role p,
                        au_isActive = True\<rparr>))"
proof (intro conjI impI)
  assume a: "req_authorization req = Some (''Bearer '' @ token)
      \<and> jwt_verify token jwtSecret = Inr decoded
      \<and> (findById (jwt_userId decoded) = None
          \<or> (\<exists>u. findById (jwt_userId decoded) = Some u \<and> \<not> user_isActive u))"
  then have eq: "authenticate jwt_verify jwtSecret findById req =
     (case findById (jwt_userId decoded) of
        None \<Rightarrow> (req, NextError (App (UnauthorizedError ''User not found'')))
      | Some u \<Rightarrow>
          if \<not> user_isActive u
          then (req, NextError (App (UnauthorizedError ''Account is inactive'')))
          else (req\<lparr>req_user := Some \<lparr>au_id = user_id u, au_email = user_email u,
                                       au_role = user_role u, au_isActive = user_isActive u\<rparr>\<rparr>,
                Next))"
    using authenticate_bearer by blast
  from a show "\<exists>e. authenticate jwt_verify jwtSecret findById req = (req, NextError (App e))
              \<and> kind e = Unauthorized \<and> statusCode e = 401"
    unfolding eq by (auto simp: UnauthorizedError_fields)
next
  assume "req_authorization req = Some (''Bearer '' @ token)
      \<and> jwt_verify token jwtSecret = Inr decoded
      \<and> findById (jwt_userId decoded) = Some u \<and> user_isActive u"
  then show "authenticate jwt_verify jwtSecret findById req =
          (req\<lparr>req_user := Some \<lparr>au_id = user_id u, au_email = user_email u,
                                 au_role = user_role u, au_isActive = True\<rparr>\<rparr>, Next)"
    using authenticate_bearer [of req token jwt_verify jwtSecret decoded findById] by simp
next
  assume "snd (authenticate jwt_verify jwtSecret findById req) = Next"
  from authenticate_Next [OF this]
  show "\<exists>tok dec p. req_authorization req = Some (''Bearer '' @ tok)
              \<and> jwt_verify tok jwtSecret = Inr dec
              \<and> findById (jwt_userId dec) = Some p \<and> user_isActive p
              \<and> req_user (fst (authenticate jwt_verify jwtSecret findById req)) =
                  Some \<lparr>au_id = user_id p, au_email = user_email p, au_role = user_role p,
                        au_isActive = True\<rparr>" .
qed

text \<open>The theorem at the example deployment: the inactive Bob presents an accepted token.\<close>

theorem authenticate_rejects_missing_or_inactive_witness:
  "req_authorization bearer_request = Some (''Bearer '' @ ''good'')
   \<and> accepting_verify ''good'' ''secret'' = Inr bob_payload
   \<and> users_by_id (jwt_userId bob_payload) = Some bob \<and> \<not> user_isActive bob
   \<and> authenticate accepting_verify ''secret'' users_by_id bearer_request =
       (bearer_request, NextError (App (UnauthorizedError ''Account is inactive'')))
   \<and> statusCode (UnauthorizedError ''Account is inactive'') = 401"
  using authenticate_rejects_missing_or_inactive
    [of bearer_request "''good''" accepting_verify "''secret''" bob_payload users_by_id bob]
  by (simp add: bearer_request_def accepting_verify_def users_by_id_def bob_def bob_payload_def
      authenticate_def verifyToken_def UnauthorizedError_fields)

section \<open>Ownership or administrator\<close>

text \<open>
  Claim C2. For an existing resource, each of \<open>getById\<close>, \<open>update\<close> and
  \<open>delete\<close> succeeds when the caller's role is ADMIN or the caller's id is the
  resource's \<open>ownerId\<close> (the read returns the row, the update stores the merged row, the
  delete removes it), and fails with a \<open>ForbiddenError\<close> of status 403 for every other
  caller, leaving the table as it was. The denial comes from the comparison in the
  service: the gate \<open>requireOwnershipOrAdmin\<close> returns early for an ADMIN and lets
  every other authenticated principal through as well.
\<close>

theorem ownership_or_admin:
  "tbl ident = Some r \<longrightarrow>
     (userRole = ADMIN \<or> ownerId r = userId \<longrightarrow>
        getById tbl ident userId userRole = Inr r
        \<and> update xss merge tbl ident data userId userRole =
            Inr (merge (helpers_sanitizeObject xss data) r,
                 tbl(ident \<mapsto> merge (helpers_sanitizeObject xss data) r))
        \<and> delete_resource tbl ident userId userRole = Inr (tbl(ident := None)))
     \<and> (userRole \<noteq> ADMIN \<and> ownerId r \<noteq> userId \<longrightarrow>
        (\<exists>e. getById tbl ident userId userRole = Inl e
             \<and> kind e = Forbidden \<and> statusCode e = 403)
        \<and> (\<exists>e. update xss merge tbl ident data userId userRole = Inl e
             \<and> kind e = Forbidden \<and> statusCode e = 403)
        \<and> (\<exists>e. delete_resource tbl ident userId userRole = Inl e
             \<and> kind e = Forbidden \<and> statusCode e = 403))
     \<and> (req_user req = Some u \<longrightarrow> requireOwnershipOrAdmin resourceIdParam req = Next)"
proof
  assume r: "tbl ident = Some r"
  have allowed: "userRole = ADMIN \<or> ownerId r = userId \<longrightarrow>
        getById tbl ident userId userRole = Inr r
        \<and> update xss merge tbl ident data userId userRole =
            Inr (merge (helpers_sanitizeObject xss data) r,
                 tbl(ident \<mapsto> merge (helpers_sanitizeObject xss data) r))
        \<and> delete_resource tbl ident userId userRole = Inr (tbl(ident := None))"
    using r by (auto simp: getById_def update_def delete_resource_def Let_def)
  have denied: "userRole \<noteq> ADMIN \<and> ownerId r \<noteq> userId \<longrightarrow>
        (\<exists>e. getById tbl ident userId userRole = Inl e
             \<and> kind e = Forbidden \<and> statusCode e = 403)
        \<and> (\<exists>e. update xss merge tbl ident data userId userRole = Inl e
             \<and> kind e = Forbidden \<and> statusCode e = 403)
        \<and> (\<exists>e. delete_resource tbl ident userId userRole = Inl e
             \<and> kind e = Forbidden \<and> statusCode e = 403)"
    using r by (simp add: getById_def update_def delete_resource_def ForbiddenError_fields)
  have gate: "req_user req = Some u \<longrightarrow> requireOwnershipOrAdmin resourceIdParam req = Next"
    by (simp add: requireOwnershipOrAdmin_def)
  from allowed denied gate
  show "(userRole = ADMIN \<or> ownerId r = userId \<longrightarrow>
        getById tbl ident userId userRole = Inr r
        \<and> update xss merge tbl ident data userId userRole =
            Inr (merge (helpers_sanitizeObject xss data) r,
                 tbl(ident \<mapsto> merge (helpers_sanitizeObject xss data) r))
        \<and> delete_resource tbl ident userId userRole = Inr (tbl(ident := None)))
     \<and> (userRole \<noteq> ADMIN \<and> ownerId r \<noteq> userId \<longrightarrow>
        (\<exists>e. getById tbl ident userId userRole = Inl e
             \<and> kind e = Forbidden \<and> statusCode e = 403)
        \<and> (\<exists>e. update xss merge tbl ident data userId userRole = Inl e
             \<and> kind e = Forbidden \<and> statusCode e = 403)
        \<and> (\<exists>e. delete_resource tbl ident userId userRole = Inl e
             \<and> kind e = Forbidden \<and> statusCode e = 403))
     \<and> (req_user req = Some u \<longrightarrow> requireOwnershipOrAdmin resourceIdParam req = Next)"
    by blast
qed

text \<open>
  The theorem at the resource of Ann: Ann reads it, the USER with id \<open>u2\<close> is refused,
  and the gate has let that user through.
\<close>

theorem ownership_or_admin_witness:
  "one_resource ''r1'' = Some r1 \<and> ownerId r1 = ''u1''
   \<and> getById one_resource ''r1'' ''u1'' USER = Inr r1
   \<and> getById one_resource ''r1'' ''u9'' ADMIN = Inr r1
   \<and> USER \<noteq> ADMIN \<and> ownerId r1 \<noteq> ''u2''
   \<and> getById one_resource ''r1'' ''u2'' USER =
       Inl (ForbiddenError ''You do not have permission to view this resource'')
   \<and> delete_resource one_resource ''r1'' ''u2'' USER =
       Inl (ForbiddenError ''You do not have permission to delete this resource'')
   \<and> req_user user_request = Some ann
   \<and> requireOwnershipOrAdmin ''id'' user_request = Next"
  using ownership_or_admin [of one_resource "''r1''" r1 USER "''u1''" id "\<lambda>d r. r" JNull user_request ann "''id''"]
    ownership_or_admin [of one_resource "''r1''" r1 USER "''u2''" id "\<lambda>d r. r" JNull user_request ann "''id''"]
  by (simp add: one_resource_def r1_def getById_def delete_resource_def user_request_def ann_def
      requireOwnershipOrAdmin_def)

section \<open>The body sanitizer\<close>

lemma startsWith_hd: "startsWith s (p # ps) \<Longrightarrow> p \<in> set s"
  by (cases s) auto

lemma includes_str_mem: "includes_str s (p # ps) \<Longrightarrow> p \<in> set s"
  by (induction s) (auto dest: startsWith_hd)

lemma dangerous_chars: "dangerous key \<Longrightarrow> CHR ''$'' \<in> set key \<or> CHR ''.'' \<in> set key"
  unfolding dangerous_def by (auto dest: startsWith_hd includes_str_mem)

lemma dropped_chars:
  "dropped key \<Longrightarrow> CHR ''$'' \<in> set key \<or> CHR ''.'' \<in> set key \<or> CHR ''_'' \<in> set key"
  unfolding dropped_def using dangerous_chars by auto

lemma digit_char_ok:
  "d < 10 \<Longrightarrow> digit_char d \<noteq> CHR ''$'' \<and> digit_char d \<noteq> CHR ''.'' \<and> digit_char d \<noteq> CHR ''_''"
proof -
  assume "d < 10"
  then have code: "(of_char (digit_char d) :: nat) = 48 + d"
    by (simp add: digit_char_def)
  have "digit_char d \<noteq> CHR ''$''"
  proof
    assume "digit_char d = CHR ''$''"
    then have "(of_char (digit_char d) :: nat) = 36" by simp
    with code show False by simp
  qed
  moreover have "digit_char d \<noteq> CHR ''.''"
  proof
    assume "digit_char d = CHR ''.''"
    then have "(of_char (digit_char d) :: nat) = 46" by simp
    with code show False by simp
  qed
  moreover have "digit_char d \<noteq> CHR ''_''"
  proof
    assume "digit_char d = CHR ''_''"
    then have "(of_char (digit_char d) :: nat) = 95" by simp
    with code \<open>d < 10\<close> show False by simp
  qed
  ultimately show ?thesis by simp
qed

lemma decimal_chars:
  "c \<in> set (decimal n) \<Longrightarrow> c \<noteq> CHR ''$'' \<and> c \<noteq> CHR ''.'' \<and> c \<noteq> CHR ''_''"
proof (induction n arbitrary: c rule: decimal.induct)
  case (1 n)
  show ?case
  proof (cases "n < 10")
    case True
    with "1.prems" show ?thesis by (simp add: decimal.simps [of n] digit_char_ok)
  next
    case False
    with "1.prems" have "c \<in> set (decimal (n div 10)) \<or> c = digit_char (n mod 10)"
      by (subst (asm) decimal.simps) auto
    then show ?thesis using "1.IH" [OF False] digit_char_ok [of "n mod 10"] by auto
  qed
qed

lemma decimal_not_dropped: "\<not> dropped (decimal n)"
  using dropped_chars decimal_chars by blast

lemma map_of_zip_map_right:
  "map_of (zip ks (map f xs)) k = map_option f (map_of (zip ks xs) k)"
proof (induction xs arbitrary: ks)
  case Nil
  then show ?case by simp
next
  case (Cons x xs)
  then show ?case by (cases ks) simp_all
qed

lemma map_of_kept:
  "map_of (map (\<lambda>(key, value). (key, f value)) (filter (\<lambda>(key, value). \<not> P key) kvs)) k
     = (if P k then None else map_option f (map_of kvs k))"
  by (induction kvs) auto

lemma sanitize_loop:
  "\<exists>proto'. foldl (\<lambda>sanitized (key, value).
                      if dangerous key then sanitized else assign sanitized key (f value))
               (JObj props proto) es
            = JObj (props @ map (\<lambda>(key, value). (key, f value))
                              (filter (\<lambda>(key, value). \<not> dropped key) es)) proto'"
proof (induction es arbitrary: props proto)
  case Nil
  then show ?case by simp
next
  case (Cons e es)
  obtain key v where e: "e = (key, v)" by (cases e)
  show ?case
  proof (cases "dangerous key")
    case True
    then show ?thesis using Cons.IH [of props proto] e by (simp add: dropped_def)
  next
    case False
    show ?thesis
    proof (cases "key = ''__proto__''")
      case True
      then show ?thesis
        using False e Cons.IH [of props "Some (f v)"] Cons.IH [of props proto]
        by (simp add: dropped_def)
    next
      case notproto: False
      then show ?thesis
        using False e Cons.IH [of "props @ [(key, f v)]" proto] by (simp add: dropped_def)
    qed
  qed
qed

lemma entries_sanitizeObject:
  "entries (sanitizeObject obj) =
     map (\<lambda>(key, value). (key, sanitizeValue value))
       (filter (\<lambda>(key, value). \<not> dropped key) (entries obj))"
proof -
  obtain proto' where "sanitizeObject obj =
      JObj ([] @ map (\<lambda>(key, value). (key, sanitizeValue value))
                  (filter (\<lambda>(key, value). \<not> dropped key) (entries obj))) proto'"
    using sanitize_loop [of sanitizeValue "[]" None "entries obj"]
    by (auto simp: sanitizeObject.simps [of obj] emptyObject_def)
  then show ?thesis by (simp add: entries_def)
qed

lemma lookup_sanitizeObject:
  "lookup (sanitizeObject obj) k = (if dropped k then None else map_option sanitizeValue (lookup obj k))"
  by (simp add: lookup_def entries_sanitizeObject map_of_kept)

lemma lookup_array_dropped: "dropped k \<Longrightarrow> lookup (JArr items) k = None"
proof (rule ccontr)
  assume d: "dropped k" and "lookup (JArr items) k \<noteq> None"
  then obtain w where "lookup (JArr items) k = Some w" by auto
  then have "map_of (zip (map decimal [0..<length items]) items) k = Some w"
    by (simp add: lookup_def entries_def)
  then have "k \<in> set (map decimal [0..<length items])"
    by (meson map_of_SomeD set_zip_leftD)
  then obtain i where "k = decimal i" by auto
  then show False using d decimal_not_dropped by simp
qed

lemma lookup_array_map:
  "lookup (JArr (map f items)) k = map_option f (lookup (JArr items) k)"
  by (simp add: lookup_def entries_def map_of_zip_map_right)

lemma lookup_scalar: "isScalar v \<Longrightarrow> lookup v k = None"
  by (cases v) (simp_all add: isScalar_def lookup_def entries_def)

lemma sanitized_from_scalar: "sanitized_from v v' \<Longrightarrow> isScalar v \<Longrightarrow> v' = v"
  by (cases v) (auto simp: sanitized_from_def isScalar_def sanitizeValue.simps sanitizeItem.simps)

lemma lookup_sanitizeObjectD:
  assumes "lookup (sanitizeObject v) k = Some w'"
  shows "\<not> dropped k \<and> (\<exists>w. lookup v k = Some w \<and> sanitized_from w w')"
  using assms by (auto simp: lookup_sanitizeObject sanitized_from_def split: if_splits)

lemma lookup_sanitized_fromD:
  assumes "sanitized_from v v'" and "lookup v' k = Some w'"
  shows "\<not> dropped k \<and> (\<exists>w. lookup v k = Some w \<and> sanitized_from w w')"
proof (cases "isScalar v")
  case True
  then show ?thesis using assms sanitized_from_scalar lookup_scalar by fastforce
next
  case False
  show ?thesis
  proof (cases "v' = sanitizeObject v")
    case True
    then show ?thesis using assms(2) lookup_sanitizeObjectD by simp
  next
    case notObj: False
    then obtain items where v: "v = JArr items" and v': "v' = JArr (map sanitizeItem items)"
      using assms(1) False
      by (cases v) (auto simp: sanitized_from_def isScalar_def sanitizeItem.simps sanitizeValue.simps)
    have "\<not> dropped k"
      using assms(2) v' lookup_array_dropped [of k "map sanitizeItem items"] by auto
    moreover have "\<exists>w. lookup v k = Some w \<and> w' = sanitizeItem w"
      using assms(2) v v' by (auto simp: lookup_array_map)
    ultimately show ?thesis by (auto simp: sanitized_from_def)
  qed
qed

lemma lookup_sanitized_fromI:
  assumes "sanitized_from v v'" and "\<not> dropped k" and "lookup v k = Some w"
  shows "\<exists>w'. lookup v' k = Some w' \<and> sanitized_from w w'"
proof (cases v)
  case (JArr items)
  show ?thesis
  proof (cases "v' = sanitizeValue v")
    case True
    then have "v' = JArr (map sanitizeItem items)" using JArr by (simp add: sanitizeValue.simps)
    then have "lookup v' k = Some (sanitizeItem w)"
      using assms(3) JArr by (simp add: lookup_array_map)
    then show ?thesis by (simp add: sanitized_from_def)
  next
    case False
    then have "v' = sanitizeObject v" using assms(1) JArr by (simp add: sanitized_from_def sanitizeItem.simps)
    then have "lookup v' k = Some (sanitizeValue w)"
      using assms(2,3) by (simp add: lookup_sanitizeObject)
    then show ?thesis by (simp add: sanitized_from_def)
  qed
next
  case (JObj props proto)
  then have "v' = sanitizeObject v"
    using assms(1) by (auto simp: sanitized_from_def sanitizeItem.simps sanitizeValue.simps)
  then have "lookup v' k = Some (sanitizeValue w)"
    using assms(2,3) by (simp add: lookup_sanitizeObject)
  then show ?thesis by (simp add: sanitized_from_def)
qed (use assms(3) in \<open>simp_all add: lookup_def entries_def\<close>)

lemma get_sanitized_fromD:
  "sanitized_from v v' \<Longrightarrow> get v' path = Some w'
     \<Longrightarrow> (\<forall>key \<in> set path. \<not> dropped key) \<and> (\<exists>w. get v path = Some w \<and> sanitized_from w w')"
proof (induction path arbitrary: v v')
  case Nil
  then show ?case by simp
next
  case (Cons key path)
  from Cons.prems(2) obtain u' where u': "lookup v' key = Some u'" and rest: "get u' path = Some w'"
    by (auto split: option.splits)
  from lookup_sanitized_fromD [OF Cons.prems(1) u']
  obtain u where "\<not> dropped key" and u: "lookup v key = Some u" and uu': "sanitized_from u u'"
    by blast
  with Cons.IH [OF uu' rest] show ?case by simp
qed

lemma get_sanitized_fromI:
  "sanitized_from v v' \<Longrightarrow> \<forall>key \<in> set path. \<not> dropped key \<Longrightarrow> get v path = Some w
     \<Longrightarrow> \<exists>w'. get v' path = Some w' \<and> sanitized_from w w'"
proof (induction path arbitrary: v v')
  case Nil
  then show ?case by simp
next
  case (Cons key path)
  from Cons.prems(3) obtain u where u: "lookup v key = Some u" and rest: "get u path = Some w"
    by (auto split: option.splits)
  from Cons.prems(2) have clean: "\<not> dropped key" "\<forall>key \<in> set path. \<not> dropped key"
    by simp_all
  from lookup_sanitized_fromI [OF Cons.prems(1) clean(1) u]
  obtain u' where u': "lookup v' key = Some u'" and uu': "sanitized_from u u'"
    by blast
  from Cons.IH [OF uu' clean(2) rest] u' show ?case by simp
qed

lemma sanitizeBody_sanitized_from: "sanitized_from body (sanitizeBody body)"
  by (cases body) (simp_all add: sanitized_from_def sanitizeBody_def sanitizeItem.simps)

text \<open>
  What the sanitizer does with every body and every path of own property names: a path
  that exists in the sanitized body contains no key that starts with \<open>$\<close> or contains
  \<open>..\<close>, at any depth and also through arrays, and it exists in the original body; a
  path that has no such key and no key \<open>__proto__\<close>, and exists in the original body,
  still exists in the sanitized body, and when it leads to a scalar the scalar is
  unchanged. For the body of scenario F, the value \<open>$ne\<close> of \<open>name\<close> is kept and the
  key \<open>bio..\<close> is removed.
\<close>

theorem sanitizeBody_keeps_other_keys:
  "(get (sanitizeBody body) path = Some w' \<longrightarrow>
      (\<forall>key \<in> set path. \<not> dangerous key) \<and> (\<exists>w. get body path = Some w))
   \<and> ((\<forall>key \<in> set path. \<not> dangerous key \<and> key \<noteq> ''__proto__'') \<and> get body path = Some w \<longrightarrow>
      (\<exists>w'. get (sanitizeBody body) path = Some w')
      \<and> (isScalar w \<longrightarrow> get (sanitizeBody body) path = Some w))
   \<and> sanitizeBody scenarioF = JObj [(''name'', JStr ''$ne''), (''profile'', JObj [] None)] None"
proof (intro conjI impI)
  assume "get (sanitizeBody body) path = Some w'"
  from get_sanitized_fromD [OF sanitizeBody_sanitized_from this]
  have d: "\<forall>key \<in> set path. \<not> dropped key" and e: "\<exists>w. get body path = Some w"
    by blast+
  from d show "\<forall>key \<in> set path. \<not> dangerous key"
    by (simp add: dropped_def)
  from e show "\<exists>w. get body path = Some w" .
next
  assume a: "(\<forall>key \<in> set path. \<not> dangerous key \<and> key \<noteq> ''__proto__'') \<and> get body path = Some w"
  then have nd: "\<forall>key \<in> set path. \<not> dropped key"
    by (simp add: dropped_def)
  from a have g: "get body path = Some w"
    by simp
  from get_sanitized_fromI [OF sanitizeBody_sanitized_from nd g]
  obtain w' where w': "get (sanitizeBody body) path = Some w'" and s: "sanitized_from w w'"
    by blast
  then show "\<exists>w'. get (sanitizeBody body) path = Some w'"
    by blast
  assume "isScalar w"
  with s w' show "get (sanitizeBody body) path = Some w"
    by (simp add: sanitized_from_scalar)
next
  show "sanitizeBody scenarioF = JObj [(''name'', JStr ''$ne''), (''profile'', JObj [] None)] None"
    by code_simp
qed

text \<open>The theorem at the body of scenario F and the path to \<open>name\<close>.\<close>

theorem sanitizeBody_keeps_other_keys_witness:
  "get (sanitizeBody scenarioF) [''name''] = Some (JStr ''$ne'')
   \<and> \<not> dangerous ''name'' \<and> ''name'' \<noteq> ''__proto__''
   \<and> get scenarioF [''name''] = Some (JStr ''$ne'')
   \<and> isScalar (JStr ''$ne'')
   \<and> get (sanitizeBody scenarioF) [''profile'', ''bio..''] = None
   \<and> get scenarioF [''profile'', ''bio..''] = Some (JStr ''x'')"
proof -
  have clean: "\<not> dangerous ''name''"
    by code_simp
  have before: "get scenarioF [''name''] = Some (JStr ''$ne'')"
    "get scenarioF [''profile'', ''bio..''] = Some (JStr ''x'')"
    by code_simp+
  have gone: "get (sanitizeBody scenarioF) [''profile'', ''bio..''] = None"
    by code_simp
  have scalar: "isScalar (JStr ''$ne'')"
    by (simp add: isScalar_def)
  have ne: "''name'' \<noteq> ''__proto__''"
    by simp
  have path: "\<forall>key \<in> set [''name'']. \<not> dangerous key \<and> key \<noteq> ''__proto__''"
    using clean by simp
  from sanitizeBody_keeps_other_keys [of scenarioF "[''name'']" "JStr ''$ne''" "JStr ''$ne''"]
    path before(1) scalar
  have kept: "get (sanitizeBody scenarioF) [''name''] = Some (JStr ''$ne'')"
    by blast
  from kept clean ne before gone scalar show ?thesis
    by blast
qed

text \<open>
  Claim C3 holds of every key but one: the code also removes the key \<open>__proto__\<close>,
  which neither starts with \<open>$\<close> nor contains \<open>..\<close>. For the body
  \<open>{"__proto__": 5, "a": 1}\<close> the sanitized body is \<open>{"a": 1}\<close>: the sibling key
  \<open>__proto__\<close> is not preserved and its scalar value 5 is not passed through.
\<close>

theorem sanitizeBody_drops_proto_key:
  "sanitizeBody proto_body = JObj [(''a'', JNum 1)] None
   \<and> \<not> dangerous ''__proto__''
   \<and> get proto_body [''__proto__''] = Some (JNum 5)
   \<and> isScalar (JNum 5)
   \<and> get (sanitizeBody proto_body) [''__proto__''] = None
   \<and> get (sanitizeBody proto_body) [''a''] = Some (JNum 1)"
  by code_simp


section \<open>Token verification maps every failure to a fixed 401\<close>

lemma verifyToken_cases:
  "verifyToken jwt_verify jwtSecret token =
     (case jwt_verify token jwtSecret of
        Inr decoded \<Rightarrow> Inr decoded
      | Inl (TokenExpiredError m) \<Rightarrow> Inl (UnauthorizedError ''Token has expired'')
      | Inl (NotBeforeError m) \<Rightarrow> Inl (UnauthorizedError ''Invalid token'')
      | Inl (JsonWebTokenError m) \<Rightarrow> Inl (UnauthorizedError ''Invalid token'')
      | Inl (OtherError m) \<Rightarrow> Inl (UnauthorizedError ''Token verification failed''))"
  by (simp add: verifyToken_def instanceof_TokenExpiredError_def instanceof_JsonWebTokenError_def
      split: sum.splits jwt_error.splits)

text \<open>
  Claim C4. Whatever \<open>jwt.verify\<close> does with the token: the result is the 401 with the
  message "Token has expired" exactly when the library reports the expiry
  (\<open>TokenExpiredError\<close>); it is the 401 with the generic message "Invalid token" exactly
  when the library reports another token error (bad signature, malformed token, token not
  yet valid); it is the 401 "Token verification failed" exactly for any other exception.
  Every failure is an \<open>UnauthorizedError\<close> with status 401 whose message is one of these
  three constants, so no text of the library's error reaches the caller, and the expired
  result differs from the invalid-token result. The payload is returned exactly when the
  library returns it.
\<close>

theorem verifyToken_failure_classes:
  "(verifyToken jwt_verify jwtSecret token = Inl (UnauthorizedError ''Token has expired'')
      \<longleftrightarrow> (\<exists>m. jwt_verify token jwtSecret = Inl (TokenExpiredError m)))
   \<and> (verifyToken jwt_verify jwtSecret token = Inl (UnauthorizedError ''Invalid token'')
      \<longleftrightarrow> (\<exists>m. jwt_verify token jwtSecret = Inl (JsonWebTokenError m)
               \<or> jwt_verify token jwtSecret = Inl (NotBeforeError m)))
   \<and> (verifyToken jwt_verify jwtSecret token = Inl (UnauthorizedError ''Token verification failed'')
      \<longleftrightarrow> (\<exists>m. jwt_verify token jwtSecret = Inl (OtherError m)))
   \<and> (verifyToken jwt_verify jwtSecret token = Inr decoded
      \<longleftrightarrow> jwt_verify token jwtSecret = Inr decoded)
   \<and> (\<forall>e. verifyToken jwt_verify jwtSecret token = Inl e \<longrightarrow>
         kind e = Unauthorized \<and> statusCode e = 401 \<and> errors e = None
         \<and> message e \<in> {''Token has expired'', ''Invalid token'', ''Token verification failed''})
   \<and> UnauthorizedError ''Token has expired'' \<noteq> UnauthorizedError ''Invalid token''
   \<and> statusCode (UnauthorizedError ''Token has expired'') = 401
   \<and> statusCode (UnauthorizedError ''Invalid token'') = 401"
proof -
  show ?thesis
    unfolding verifyToken_cases
    by (cases "jwt_verify token jwtSecret"; cases "projl (jwt_verify token jwtSecret)")
      (auto simp: UnauthorizedError_fields UnauthorizedError_inject)
qed

text \<open>The theorem at a library that reports an expired token.\<close>

theorem verifyToken_failure_classes_witness:
  "verifyToken expired_verify ''secret'' ''abc'' = Inl (UnauthorizedError ''Token has expired'')
   \<and> expired_verify ''abc'' ''secret'' = Inl (TokenExpiredError ''jwt expired'')
   \<and> statusCode (UnauthorizedError ''Token has expired'') = 401
   \<and> message (UnauthorizedError ''Token has expired'') = ''Token has expired''"
  using verifyToken_failure_classes [of expired_verify "''secret''" "''abc''"]
  by (simp add: expired_verify_def UnauthorizedError_fields)

section \<open>The request window of the rate limiter\<close>

lemma serve_all_append:
  "serve_all pol key (xs @ ys) bs =
     serve_all pol key xs bs @ serve_all pol key ys (after_all pol key xs bs)"
  by (induction xs arbitrary: bs) (auto split: prod.splits)

lemma serve_fresh:
  assumes "bs key = None \<or> (\<exists>b. bs key = Some b \<and> windowStart b + windowMs pol \<le> t)"
  shows "fst (serve pol key (t, s) bs) = Allow"
    and "counted pol s \<Longrightarrow>
           serve pol key (t, s) bs = (Allow, bs(key \<mapsto> \<lparr>windowStart = t, count = 1\<rparr>))"
  using assms by (auto simp: serve_def check_def finish_def counted_def)

lemma serve_in_window_allow:
  assumes "bs key = Some \<lparr>windowStart = t0, count = c\<rparr>" and "t < t0 + windowMs pol"
    and "c < max_requests pol" and "counted pol s"
  shows "serve pol key (t, s) bs = (Allow, bs(key \<mapsto> \<lparr>windowStart = t0, count = Suc c\<rparr>))"
  using assms by (auto simp: serve_def check_def finish_def counted_def handler_def Let_def)

lemma serve_in_window_deny:
  assumes "bs key = Some \<lparr>windowStart = t0, count = c\<rparr>" and "t < t0 + windowMs pol"
    and "max_requests pol \<le> c"
  shows "serve pol key (t, s) bs =
           (Deny 429 (handler_message pol), bs(key \<mapsto> \<lparr>windowStart = t0, count = Suc c\<rparr>))"
  using assms by (auto simp: serve_def check_def finish_def handler_def Let_def)

lemma serve_all_in_window:
  assumes "bs key = Some \<lparr>windowStart = t0, count = c\<rparr>"
    and "c \<le> max_requests pol"
    and "length requests = Suc (max_requests pol - c)"
    and "\<forall>r \<in> set requests. fst r < t0 + windowMs pol"
    and "\<forall>r \<in> set (butlast requests). counted pol (snd r)"
  shows "serve_all pol key requests bs =
           replicate (max_requests pol - c) Allow @ [Deny 429 (handler_message pol)]
         \<and> (\<exists>n. after_all pol key requests bs key = Some \<lparr>windowStart = t0, count = n\<rparr>)"
  using assms
proof (induction requests arbitrary: c bs)
  case Nil
  then show ?case by simp
next
  case (Cons r rs)
  obtain t s where r: "r = (t, s)" by (cases r)
  have t: "t < t0 + windowMs pol" using Cons.prems(4) r by simp
  show ?case
  proof (cases "c = max_requests pol")
    case True
    then have "rs = []" using Cons.prems(3) by simp
    then show ?thesis
      using serve_in_window_deny [of bs key t0 c t pol s] Cons.prems(1) t True r by simp
  next
    case False
    then have lt: "c < max_requests pol" using Cons.prems(2) by simp
    then have ne: "rs \<noteq> []" using Cons.prems(3) by auto
    then have cs: "counted pol s" using Cons.prems(5) r by simp
    let ?bs = "bs(key \<mapsto> \<lparr>windowStart = t0, count = Suc c\<rparr>)"
    have step: "serve pol key r bs = (Allow, ?bs)"
      using serve_in_window_allow [of bs key t0 c t pol s] Cons.prems(1) t lt cs r by simp
    have "serve_all pol key rs ?bs =
        replicate (max_requests pol - Suc c) Allow @ [Deny 429 (handler_message pol)]
        \<and> (\<exists>n. after_all pol key rs ?bs key = Some \<lparr>windowStart = t0, count = n\<rparr>)"
    proof (rule Cons.IH)
      show "?bs key = Some \<lparr>windowStart = t0, count = Suc c\<rparr>" by simp
      show "Suc c \<le> max_requests pol" using lt by simp
      show "length rs = Suc (max_requests pol - Suc c)" using Cons.prems(3) lt by simp
      show "\<forall>r \<in> set rs. fst r < t0 + windowMs pol" using Cons.prems(4) by simp
      show "\<forall>r \<in> set (butlast rs). counted pol (snd r)" using Cons.prems(5) ne by simp
    qed
    moreover have "max_requests pol - c = Suc (max_requests pol - Suc c)" using lt by simp
    ultimately show ?thesis using step by simp
  qed
qed

lemma window_from_fresh:
  assumes "1 \<le> max_requests pol"
    and "bs key = None \<or> (\<exists>b. bs key = Some b \<and> windowStart b + windowMs pol \<le> t0)"
    and "length requests = max_requests pol"
    and "\<forall>r \<in> set requests. fst r < t0 + windowMs pol"
    and "\<forall>r \<in> set (butlast ((t0, s0) # requests)). counted pol (snd r)"
  shows "serve_all pol key ((t0, s0) # requests) bs =
           replicate (max_requests pol) Allow @ [Deny 429 (handler_message pol)]"
    and "\<exists>n. after_all pol key ((t0, s0) # requests) bs key = Some \<lparr>windowStart = t0, count = n\<rparr>"
proof -
  from assms(1,3) have ne: "requests \<noteq> []" by auto
  with assms(5) have c0: "counted pol s0" and cr: "\<forall>r \<in> set (butlast requests). counted pol (snd r)"
    by simp_all
  let ?bs = "bs(key \<mapsto> \<lparr>windowStart = t0, count = 1\<rparr>)"
  have first: "serve pol key (t0, s0) bs = (Allow, ?bs)"
    using serve_fresh(2) [of bs key pol t0 s0] assms(2) c0 by simp
  have rest: "serve_all pol key requests ?bs =
      replicate (max_requests pol - 1) Allow @ [Deny 429 (handler_message pol)]
      \<and> (\<exists>n. after_all pol key requests ?bs key = Some \<lparr>windowStart = t0, count = n\<rparr>)"
    using serve_all_in_window [of ?bs key t0 1 pol requests] assms(1,3,4) cr by simp
  have "Allow # replicate (max_requests pol - 1) Allow = replicate (max_requests pol) Allow"
    using assms(1) by (cases "max_requests pol") simp_all
  with first rest
  show "serve_all pol key ((t0, s0) # requests) bs =
           replicate (max_requests pol) Allow @ [Deny 429 (handler_message pol)]"
    by simp
  from first rest
  show "\<exists>n. after_all pol key ((t0, s0) # requests) bs key = Some \<lparr>windowStart = t0, count = n\<rparr>"
    by simp
qed

text \<open>
  Claim C5 as stated fails. Under the authentication policy (maximum 5, successful
  requests skipped) six successful login attempts within the window are all allowed: the
  sixth does not get a 429. And under a policy with maximum 0 the first request of a
  window is allowed, though it is request N + 1.
\<close>

theorem rate_limit_counterexample:
  "serve_all authLimiter ''10.0.0.1'' successful_logins no_buckets =
     [Allow, Allow, Allow, Allow, Allow, Allow]
   \<and> length successful_logins = max_requests authLimiter + 1
   \<and> list_all (\<lambda>r. fst r < 0 + windowMs authLimiter) successful_logins
   \<and> fst (check zero_policy ''10.0.0.1'' 0 no_buckets) = Allow
   \<and> max_requests zero_policy = 0"
  by (simp add: successful_logins_def no_buckets_def serve_def check_def finish_def
      authLimiter_def handler_def zero_policy_def)


text \<open>
  Claim C5, amended. For every key under a policy with window W and maximum N of at least
  1: when a window opens for the key at \<open>t0\<close> (no bucket yet, or the previous window has
  expired) and N further requests arrive before \<open>t0 + W\<close>, and each of the first N
  requests is counted (the policy does not skip successful requests, or the response has
  a status of 400 or more), then the first N requests are allowed and request N + 1 is
  denied with status 429; a request at \<open>t0 + W\<close> or later is allowed again. The
  authentication policy has maximum 5 and a window of 15 minutes, the general policy has
  maximum 100 and the same window.
\<close>

theorem rate_limit_window:
  "(1 \<le> max_requests pol
      \<and> (bs key = None \<or> (\<exists>b. bs key = Some b \<and> windowStart b + windowMs pol \<le> t0))
      \<and> length requests = max_requests pol
      \<and> (\<forall>r \<in> set requests. fst r < t0 + windowMs pol)
      \<and> (\<forall>r \<in> set (butlast ((t0, s0) # requests)). counted pol (snd r))
     \<longrightarrow> serve_all pol key ((t0, s0) # requests) bs =
            replicate (max_requests pol) Allow @ [Deny 429 (handler_message pol)]
         \<and> (t0 + windowMs pol \<le> t' \<longrightarrow>
              serve_all pol key ((t0, s0) # requests @ [(t', s')]) bs =
                replicate (max_requests pol) Allow @ [Deny 429 (handler_message pol), Allow]))
   \<and> (\<not> skipSuccessfulRequests pol \<or> 400 \<le> status \<longrightarrow> counted pol status)
   \<and> max_requests authLimiter = 5 \<and> windowMs authLimiter = 15 * 60 * 1000
   \<and> max_requests apiLimiter = 100 \<and> windowMs apiLimiter = 15 * 60 * 1000"
proof (intro conjI impI)
  assume a: "1 \<le> max_requests pol
      \<and> (bs key = None \<or> (\<exists>b. bs key = Some b \<and> windowStart b + windowMs pol \<le> t0))
      \<and> length requests = max_requests pol
      \<and> (\<forall>r \<in> set requests. fst r < t0 + windowMs pol)
      \<and> (\<forall>r \<in> set (butlast ((t0, s0) # requests)). counted pol (snd r))"
  then show w: "serve_all pol key ((t0, s0) # requests) bs =
            replicate (max_requests pol) Allow @ [Deny 429 (handler_message pol)]"
    using window_from_fresh(1) [of pol bs key t0 requests s0] by blast
  from a obtain n where n: "after_all pol key ((t0, s0) # requests) bs key =
      Some \<lparr>windowStart = t0, count = n\<rparr>"
    using window_from_fresh(2) [of pol bs key t0 requests s0] by blast
  assume late: "t0 + windowMs pol \<le> t'"
  have "fst (serve pol key (t', s') (after_all pol key ((t0, s0) # requests) bs)) = Allow"
    using serve_fresh(1) [of "after_all pol key ((t0, s0) # requests) bs" key pol t' s'] n late
    by simp
  then have "serve_all pol key [(t', s')] (after_all pol key ((t0, s0) # requests) bs) = [Allow]"
    by (cases "serve pol key (t', s') (after_all pol key ((t0, s0) # requests) bs)") simp
  then show "serve_all pol key ((t0, s0) # requests @ [(t', s')]) bs =
      replicate (max_requests pol) Allow @ [Deny 429 (handler_message pol), Allow]"
    using serve_all_append [of pol key "(t0, s0) # requests" "[(t', s')]" bs] w by simp
qed (auto simp: counted_def authLimiter_def apiLimiter_def)

text \<open>
  The amended theorem at the authentication policy: six failed login attempts from one
  address within 15 minutes, the sixth answered with 429.
\<close>

theorem rate_limit_window_witness:
  "1 \<le> max_requests authLimiter \<and> no_buckets ''10.0.0.1'' = None
   \<and> length (tl failed_logins) = max_requests authLimiter
   \<and> failed_logins = (0, 401) # tl failed_logins
   \<and> list_all (\<lambda>r. fst r < 0 + windowMs authLimiter) (tl failed_logins)
   \<and> list_all (\<lambda>r. counted authLimiter (snd r)) (butlast failed_logins)
   \<and> serve_all authLimiter ''10.0.0.1'' failed_logins no_buckets =
       [Allow, Allow, Allow, Allow, Allow,
        Deny 429 ''Too many authentication attempts, please try again later'']"
  using rate_limit_window [of authLimiter no_buckets "''10.0.0.1''" 0 "tl failed_logins" 401 900000 401 401]
  by (simp add: failed_logins_def no_buckets_def authLimiter_def counted_def serve_def check_def
      finish_def handler_def)

section \<open>The role gate\<close>

text \<open>
  Claim C6. For a request with an authenticated principal and any list of allowed roles,
  \<open>requireRole\<close> calls \<open>next()\<close> if and only if the principal's role is in the list,
  and otherwise calls \<open>next\<close> with a \<open>ForbiddenError\<close> of status 403. The gate takes
  no store: its outcome is the same for any two requests whose principals have the same
  role. With the list that holds only ADMIN, a USER is denied and an ADMIN passes.
\<close>

theorem requireRole_iff_member:
  "req_user req = Some u \<longrightarrow>
     (requireRole allowedRoles req = Next \<longleftrightarrow> au_role u \<in> set allowedRoles)
     \<and> (au_role u \<notin> set allowedRoles \<longrightarrow>
          (\<exists>e. requireRole allowedRoles req = NextError (App e)
               \<and> kind e = Forbidden \<and> statusCode e = 403))
     \<and> (\<forall>req' u'. req_user req' = Some u' \<and> au_role u' = au_role u \<longrightarrow>
          requireRole allowedRoles req' = requireRole allowedRoles req)
     \<and> (au_role u = USER \<longrightarrow> requireAdmin req \<noteq> Next
          \<and> (\<exists>e. requireAdmin req = NextError (App e) \<and> statusCode e = 403))
     \<and> (au_role u = ADMIN \<longrightarrow> requireAdmin req = Next)"
proof
  assume u: "req_user req = Some u"
  have member: "requireRole allowedRoles req = Next \<longleftrightarrow> au_role u \<in> set allowedRoles"
    using u by (simp add: requireRole_def)
  have denied: "au_role u \<notin> set allowedRoles \<longrightarrow>
      (\<exists>e. requireRole allowedRoles req = NextError (App e)
           \<and> kind e = Forbidden \<and> statusCode e = 403)"
    using u by (simp add: requireRole_def ForbiddenError_fields)
  have structural: "\<forall>req' u'. req_user req' = Some u' \<and> au_role u' = au_role u \<longrightarrow>
      requireRole allowedRoles req' = requireRole allowedRoles req"
    using u by (simp add: requireRole_def)
  have user: "au_role u = USER \<longrightarrow> requireAdmin req \<noteq> Next
      \<and> (\<exists>e. requireAdmin req = NextError (App e) \<and> statusCode e = 403)"
    using u by (simp add: requireAdmin_def requireRole_def ForbiddenError_fields)
  have admin: "au_role u = ADMIN \<longrightarrow> requireAdmin req = Next"
    using u by (simp add: requireAdmin_def requireRole_def)
  from member denied structural user admin
  show "(requireRole allowedRoles req = Next \<longleftrightarrow> au_role u \<in> set allowedRoles)
     \<and> (au_role u \<notin> set allowedRoles \<longrightarrow>
          (\<exists>e. requireRole allowedRoles req = NextError (App e)
               \<and> kind e = Forbidden \<and> statusCode e = 403))
     \<and> (\<forall>req' u'. req_user req' = Some u' \<and> au_role u' = au_role u \<longrightarrow>
          requireRole allowedRoles req' = requireRole allowedRoles req)
     \<and> (au_role u = USER \<longrightarrow> requireAdmin req \<noteq> Next
          \<and> (\<exists>e. requireAdmin req = NextError (App e) \<and> statusCode e = 403))
     \<and> (au_role u = ADMIN \<longrightarrow> requireAdmin req = Next)"
    by blast
qed

text \<open>The theorem at a request of the USER Ann and the list that holds only ADMIN.\<close>

theorem requireRole_iff_member_witness:
  "req_user user_request = Some ann \<and> au_role ann = USER \<and> au_role ann \<notin> set [ADMIN]
   \<and> requireRole [ADMIN] user_request =
       NextError (App (ForbiddenError ''Access denied. Required role(s): ADMIN''))
   \<and> statusCode (ForbiddenError ''Access denied. Required role(s): ADMIN'') = 403
   \<and> requireAdmin user_request \<noteq> Next"
  using requireRole_iff_member [of user_request ann "[ADMIN]"]
  by (simp add: user_request_def ann_def requireRole_def requireAdmin_def role_name_def
      ForbiddenError_fields)

section \<open>Login failures\<close>

text \<open>
  Claim C7 as stated fails: a login with an unregistered email and a login with the
  registered email of the inactive Bob and a wrong password both fail with status 401,
  but the messages differ ("Invalid credentials" against "Account is inactive"), because
  the activity check comes before the password check.
\<close>

theorem login_inactive_counterexample:
  "users_by_email (dto_email ghost_login) = None
   \<and> users_by_email (dto_email bob_wrong_login) = Some bob
   \<and> \<not> plain_compare (dto_password bob_wrong_login) (user_password bob)
   \<and> login users_by_email plain_compare fixed_sign ''secret'' ''24h'' ghost_login =
       Inl (UnauthorizedError ''Invalid credentials'')
   \<and> login users_by_email plain_compare fixed_sign ''secret'' ''24h'' bob_wrong_login =
       Inl (UnauthorizedError ''Account is inactive'')
   \<and> login users_by_email plain_compare fixed_sign ''secret'' ''24h'' ghost_login \<noteq>
       login users_by_email plain_compare fixed_sign ''secret'' ''24h'' bob_wrong_login"
  by (simp add: login_def users_by_email_def ghost_login_def bob_wrong_login_def bob_def
      plain_compare_def UnauthorizedError_inject)

text \<open>
  Claim C7, amended. For any two login attempts, one with an email that has no registered
  principal and one with the email of a registered, active principal and a wrong
  password, \<open>login\<close> produces the same failure: the \<open>UnauthorizedError\<close> with status
  401 and the message "Invalid credentials". For a registered principal that is
  inactive, \<open>login\<close> fails with status 401 and the message "Account is inactive",
  whatever the password.
\<close>

theorem login_failures_same_when_active:
  "(findByEmail (dto_email unknown) = None
      \<and> findByEmail (dto_email known) = Some u \<and> user_isActive u
      \<and> \<not> compare (dto_password known) (user_password u)
     \<longrightarrow> login findByEmail compare jwt_sign jwtSecret jwtExpiresIn unknown =
            login findByEmail compare jwt_sign jwtSecret jwtExpiresIn known
         \<and> login findByEmail compare jwt_sign jwtSecret jwtExpiresIn known =
            Inl (UnauthorizedError ''Invalid credentials'')
         \<and> kind (UnauthorizedError ''Invalid credentials'') = Unauthorized
         \<and> statusCode (UnauthorizedError ''Invalid credentials'') = 401)
   \<and> (findByEmail (dto_email known) = Some u \<and> \<not> user_isActive u
     \<longrightarrow> login findByEmail compare jwt_sign jwtSecret jwtExpiresIn known =
            Inl (UnauthorizedError ''Account is inactive'')
         \<and> statusCode (UnauthorizedError ''Account is inactive'') = 401)"
  by (simp add: login_def UnauthorizedError_fields)

text \<open>The amended theorem at a table with the active Carol.\<close>

theorem login_failures_same_when_active_witness:
  "active_users_by_email (dto_email ghost_login) = None
   \<and> active_users_by_email (dto_email carol_wrong_login) = Some carol \<and> user_isActive carol
   \<and> \<not> plain_compare (dto_password carol_wrong_login) (user_password carol)
   \<and> login active_users_by_email plain_compare fixed_sign ''secret'' ''24h'' ghost_login =
       login active_users_by_email plain_compare fixed_sign ''secret'' ''24h'' carol_wrong_login
   \<and> login active_users_by_email plain_compare fixed_sign ''secret'' ''24h'' carol_wrong_login =
       Inl (UnauthorizedError ''Invalid credentials'')"
  using login_failures_same_when_active
    [of active_users_by_email ghost_login carol_wrong_login carol plain_compare fixed_sign
        "''secret''" "''24h''"]
  by (simp add: active_users_by_email_def ghost_login_def carol_wrong_login_def carol_def
      plain_compare_def)

section \<open>Validation reports every issue\<close>

lemma format_issue_shape:
  "\<exists>field. format_issue err = field @ '': '' @ issue_message err \<and> field \<noteq> []"
  by (simp add: format_issue_def Let_def)

text \<open>
  Claim C8. When the schema rejects the request with a \<open>ZodError\<close> of k issues,
  \<open>validate\<close> calls \<open>next\<close> once, with one \<open>ValidationError\<close>: status 422, message
  "Validation failed", and an error list of exactly k entries in the order of the issues,
  the i-th entry being a non-empty field path, a colon and a space, and the message of the
  i-th issue. The request leaves the middleware as it came, whatever the schema
  answers: nothing of the payload is applied or changed.
\<close>

theorem validate_collects_all_issues:
  "(schema (req_body req) (req_query req) (req_params req) = ZodError issues \<longrightarrow>
      validate schema req =
        (req, NextError (App (ValidationError ''Validation failed'' (Some (map format_issue issues)))))
      \<and> kind (ValidationError ''Validation failed'' (Some (map format_issue issues))) = Validation
      \<and> statusCode (ValidationError ''Validation failed'' (Some (map format_issue issues))) = 422
      \<and> errors (ValidationError ''Validation failed'' (Some (map format_issue issues))) =
          Some (map format_issue issues)
      \<and> length (map format_issue issues) = length issues
      \<and> (\<forall>i < length issues. \<exists>field.
            map format_issue issues ! i = field @ '': '' @ issue_message (issues ! i)
            \<and> field \<noteq> []))
   \<and> fst (validate schema req) = req"
proof (intro conjI impI)
  assume z: "schema (req_body req) (req_query req) (req_params req) = ZodError issues"
  then show "validate schema req =
      (req, NextError (App (ValidationError ''Validation failed'' (Some (map format_issue issues)))))"
    by (simp add: validate_def)
  show "\<forall>i < length issues. \<exists>field.
      map format_issue issues ! i = field @ '': '' @ issue_message (issues ! i) \<and> field \<noteq> []"
    using format_issue_shape by simp
next
  show "fst (validate schema req) = req"
    by (simp add: validate_def split: parse_result.splits)
qed (simp_all add: ValidationError_fields)

text \<open>The theorem at a schema that reports two issues.\<close>

theorem validate_collects_all_issues_witness:
  "failing_schema (req_body user_request) (req_query user_request) (req_params user_request) =
     ZodError two_issues
   \<and> validate failing_schema user_request =
       (user_request, NextError (App (ValidationError ''Validation failed''
          (Some [''body.title: Title must be at least 3 characters'',
                 ''body.tags.0: Expected string'']))))
   \<and> length two_issues = 2"
  using validate_collects_all_issues [of failing_schema user_request two_issues]
  by (simp add: failing_schema_def two_issues_def format_issue_def segment_text_def
      decimal.simps digit_char_values)

section \<open>The duration parser\<close>

lemma of_char_digit_char: "d < 10 \<Longrightarrow> (of_char (digit_char d) :: nat) = 48 + d"
  by (simp add: digit_char_def)

lemma isDigit_digit_char: "d < 10 \<Longrightarrow> isDigit (digit_char d)"
  by (simp add: isDigit_def of_char_digit_char)

lemma isDigit_char: "isDigit c \<Longrightarrow> \<exists>d < 10. c = digit_char d"
proof -
  assume "isDigit c"
  then have r: "48 \<le> (of_char c :: nat)" "(of_char c :: nat) \<le> 57"
    by (simp_all add: isDigit_def)
  then have "digit_char (of_char c - 48) = c"
    by (simp add: digit_char_def)
  moreover have "(of_char c :: nat) - 48 < 10" using r by simp
  ultimately show ?thesis by metis
qed

lemma digits_value_append: "digits_value (xs @ [c]) = 10 * digits_value xs + ((of_char c :: nat) - 48)"
  by (simp add: digits_value_def)

lemma digits_value_snoc_digit: "d < 10 \<Longrightarrow> digits_value (xs @ [digit_char d]) = 10 * digits_value xs + d"
  by (simp add: digits_value_append of_char_digit_char)

lemma digits_value_decimal: "digits_value (decimal n) = n"
proof (induction n rule: decimal.induct)
  case (1 n)
  show ?case
  proof (cases "n < 10")
    case True
    then show ?thesis
      using digits_value_snoc_digit [of n "[]"] by (simp add: decimal.simps [of n] digits_value_def)
  next
    case False
    then have "digits_value (decimal n) = 10 * digits_value (decimal (n div 10)) + n mod 10"
      by (subst decimal.simps) (simp add: digits_value_snoc_digit)
    then show ?thesis using "1.IH" [OF False] by simp
  qed
qed

lemma digits_value_zeros: "digits_value (replicate z CHR ''0'' @ xs) = digits_value xs"
proof -
  have "foldl (\<lambda>acc c. 10 * acc + ((of_char c :: nat) - 48)) 0 (replicate z CHR ''0'') = 0"
    by (induction z) simp_all
  then show ?thesis by (simp add: digits_value_def)
qed

lemma isDigit_decimal: "list_all isDigit (decimal n)"
proof (induction n rule: decimal.induct)
  case (1 n)
  show ?case
  proof (cases "n < 10")
    case True
    then show ?thesis by (simp add: decimal.simps [of n] isDigit_digit_char)
  next
    case False
    then show ?thesis
      using "1.IH" by (subst decimal.simps) (simp add: isDigit_digit_char)
  qed
qed

lemma decimal_nonempty: "decimal n \<noteq> []"
  by (subst decimal.simps) simp

lemma regex_match_iff:
  "regex_match expiration = Some (value, unit) \<longleftrightarrow>
     expiration = value @ [unit] \<and> value \<noteq> [] \<and> list_all isDigit value \<and> unit \<in> set ''smhd''"
proof (cases expiration rule: rev_cases)
  case Nil
  then show ?thesis by (simp add: regex_match_def)
next
  case (snoc ys y)
  then show ?thesis by (auto simp: regex_match_def Let_def)
qed

lemma regex_match_digits:
  "value \<noteq> [] \<Longrightarrow> list_all isDigit value \<Longrightarrow> unit \<in> set ''smhd''
     \<Longrightarrow> regex_match (value @ [unit]) = Some (value, unit)"
  using regex_match_iff by blast

lemma regex_match_None:
  "\<not> (\<exists>value unit. expiration = value @ [unit] \<and> value \<noteq> [] \<and> list_all isDigit value
         \<and> unit \<in> set ''smhd'') \<Longrightarrow> regex_match expiration = None"
  using regex_match_iff [of expiration] by (cases "regex_match expiration") auto

lemma digits_canonical:
  "value \<noteq> [] \<Longrightarrow> list_all isDigit value \<Longrightarrow> \<exists>z n. value = replicate z CHR ''0'' @ decimal n"
proof (induction "value" rule: rev_induct)
  case Nil
  then show ?case by simp
next
  case (snoc c cs)
  from snoc.prems obtain d where d: "d < 10" "c = digit_char d"
    using isDigit_char by auto
  have single: "decimal d = [digit_char d]"
    using d by (simp add: decimal.simps [of d])
  show ?case
  proof (cases "cs = []")
    case True
    then have "cs @ [c] = replicate 0 CHR ''0'' @ decimal d"
      using d single by simp
    then show ?thesis by blast
  next
    case False
    with snoc obtain z n where zn: "cs = replicate z CHR ''0'' @ decimal n"
      by auto
    show ?thesis
    proof (cases "n = 0")
      case True
      then have "cs = replicate (Suc z) CHR ''0''"
        using zn by (simp add: decimal.simps [of 0] digit_char_values replicate_append_same)
      then have "cs @ [c] = replicate (Suc z) CHR ''0'' @ decimal d"
        using d single by simp
      then show ?thesis by blast
    next
      case False
      then have "decimal (10 * n + d) = decimal n @ [digit_char d]"
        using d by (subst decimal.simps) simp
      then have "cs @ [c] = replicate z CHR ''0'' @ decimal (10 * n + d)"
        using zn d by simp
      then show ?thesis by blast
    qed
  qed
qed

lemma parseInt_exact: "n \<le> 2 ^ 53 \<Longrightarrow> parseInt (replicate z CHR ''0'' @ decimal n) = Finite n"
  by (simp add: parseInt_def digits_value_zeros digits_value_decimal round_double_le)

lemma parseExpirationTime_match:
  assumes "value \<noteq> []" and "list_all isDigit value" and "u \<in> set ''smhd''"
  shows "parseExpirationTime (value @ [u]) =
      (if u = CHR ''s'' then parseInt value
       else if u = CHR ''m'' then dmul (parseInt value) (Finite 60)
       else if u = CHR ''h'' then dmul (parseInt value) (Finite 3600)
       else dmul (parseInt value) (Finite 86400))"
  using regex_match_digits [OF assms] assms(3)
  by (auto simp: parseExpirationTime_def Let_def)

text \<open>
  Claim C9 as stated fails. The numeral 9007199254740993 followed by \<open>s\<close> is an
  integer and a unit, but the result is 9007199254740992: \<open>parseInt\<close> returns a
  double, and \<open>2^53 + 1\<close> is not one.
\<close>

theorem parseExpirationTime_rounding_counterexample:
  "parseExpirationTime ''9007199254740993s'' = Finite 9007199254740992
   \<and> ''9007199254740993s'' = decimal 9007199254740993 @ ''s''
   \<and> parseExpirationTime (decimal 9007199254740993 @ ''s'') \<noteq> Finite 9007199254740993"
proof -
  have d: "decimal 9007199254740993 = ''9007199254740993''"
    by (simp add: decimal.simps digit_char_values)
  have r: "round_double 9007199254740993 = Finite 9007199254740992"
    using round_double_at [of 1 9007199254740993] by simp
  have "parseInt (decimal 9007199254740993) = Finite 9007199254740992"
    using r by (simp add: parseInt_def digits_value_decimal)
  moreover have "parseExpirationTime (decimal 9007199254740993 @ ''s'') =
      parseInt (decimal 9007199254740993)"
    using parseExpirationTime_match [of "decimal 9007199254740993" "CHR ''s''"]
      decimal_nonempty isDigit_decimal by simp
  ultimately have "parseExpirationTime (decimal 9007199254740993 @ ''s'') = Finite 9007199254740992"
    by simp
  then show ?thesis unfolding d by simp
qed

text \<open>
  Claim C9, amended. An integer written in decimal, with or without leading zeros,
  followed by one of the units s, m, h, d is mapped to that integer times 1, 60, 3600 and
  86400 whenever this product is at most \<open>2^53\<close>; every non-empty string of digits is
  such a numeral; and every string that is not one or more digits followed by a unit is
  mapped to 86400.
\<close>

theorem parseExpirationTime_units:
  "(n \<le> 2 ^ 53 \<longrightarrow>
      parseExpirationTime (replicate z CHR ''0'' @ decimal n @ ''s'') = Finite n)
   \<and> (n * 60 \<le> 2 ^ 53 \<longrightarrow>
      parseExpirationTime (replicate z CHR ''0'' @ decimal n @ ''m'') = Finite (n * 60))
   \<and> (n * 3600 \<le> 2 ^ 53 \<longrightarrow>
      parseExpirationTime (replicate z CHR ''0'' @ decimal n @ ''h'') = Finite (n * 3600))
   \<and> (n * 86400 \<le> 2 ^ 53 \<longrightarrow>
      parseExpirationTime (replicate z CHR ''0'' @ decimal n @ ''d'') = Finite (n * 86400))
   \<and> (value \<noteq> [] \<and> list_all isDigit value \<longrightarrow>
        (\<exists>z n. value = replicate z CHR ''0'' @ decimal n))
   \<and> (\<not> (\<exists>value unit. expiration = value @ [unit] \<and> value \<noteq> [] \<and> list_all isDigit value
              \<and> unit \<in> set ''smhd'')
       \<longrightarrow> parseExpirationTime expiration = Finite 86400)"
proof -
  let ?digits = "replicate z CHR ''0'' @ decimal n"
  have zeros: "list_all isDigit (replicate z CHR ''0'')"
    by (induction z) (simp_all add: isDigit_def)
  have digits: "?digits \<noteq> []" "list_all isDigit ?digits"
    using decimal_nonempty isDigit_decimal zeros by simp_all
  have unit: "parseExpirationTime (?digits @ [u]) =
      (if u = CHR ''s'' then parseInt ?digits
       else if u = CHR ''m'' then dmul (parseInt ?digits) (Finite 60)
       else if u = CHR ''h'' then dmul (parseInt ?digits) (Finite 3600)
       else dmul (parseInt ?digits) (Finite 86400))"
    if "u \<in> set ''smhd''" for u
    using parseExpirationTime_match [OF digits that] .
  have scaled: "dmul (parseInt ?digits) (Finite k) = Finite (n * k)"
    if "n * k \<le> 2 ^ 53" and "0 < k" for k
  proof -
    have "n \<le> n * k" using that(2) by simp
    then have "n \<le> 2 ^ 53" using that(1) by (rule order_trans)
    then have "parseInt ?digits = Finite n" by (rule parseInt_exact)
    then show ?thesis using that(1) by (simp add: round_double_le)
  qed
  have s: "n \<le> 2 ^ 53 \<longrightarrow> parseExpirationTime (replicate z CHR ''0'' @ decimal n @ ''s'') = Finite n"
    using unit [of "CHR ''s''"] parseInt_exact [of n z] by simp
  have m: "n * 60 \<le> 2 ^ 53 \<longrightarrow>
      parseExpirationTime (replicate z CHR ''0'' @ decimal n @ ''m'') = Finite (n * 60)"
    using unit [of "CHR ''m''"] scaled [of 60] by simp
  have h: "n * 3600 \<le> 2 ^ 53 \<longrightarrow>
      parseExpirationTime (replicate z CHR ''0'' @ decimal n @ ''h'') = Finite (n * 3600)"
    using unit [of "CHR ''h''"] scaled [of 3600] by simp
  have d: "n * 86400 \<le> 2 ^ 53 \<longrightarrow>
      parseExpirationTime (replicate z CHR ''0'' @ decimal n @ ''d'') = Finite (n * 86400)"
    using unit [of "CHR ''d''"] scaled [of 86400] by simp
  have other: "\<not> (\<exists>value unit. expiration = value @ [unit] \<and> value \<noteq> [] \<and> list_all isDigit value
              \<and> unit \<in> set ''smhd'')
       \<longrightarrow> parseExpirationTime expiration = Finite 86400"
    using regex_match_None [of expiration] by (auto simp: parseExpirationTime_def)
  from s m h d other digits_canonical [of "value"] show ?thesis
    by blast
qed

text \<open>The amended theorem at fifteen minutes, and at a string that ends in no unit.\<close>

theorem parseExpirationTime_units_witness:
  "(15::nat) * 60 \<le> 2 ^ 53
   \<and> parseExpirationTime ''15m'' = Finite 900
   \<and> decimal 15 = ''15''
   \<and> parseExpirationTime ''soon'' = Finite 86400
   \<and> parseExpirationTime ''24h'' = Finite 86400
   \<and> parseExpirationTime ''007d'' = Finite 604800"
proof -
  have a: "decimal 15 = ''15''" "decimal 24 = ''24''" "decimal 7 = ''7''"
    by (simp_all add: decimal.simps digit_char_values)
  have z: "replicate 2 CHR ''0'' = ''00''" "replicate 0 CHR ''0'' = []"
    by (simp_all add: numeral_2_eq_2)
  have no: "\<not> (\<exists>value unit. ''soon'' = value @ [unit] \<and> value \<noteq> [] \<and> list_all isDigit value
              \<and> unit \<in> set ''smhd'')"
  proof
    assume "\<exists>value unit. ''soon'' = value @ [unit] \<and> value \<noteq> [] \<and> list_all isDigit value
              \<and> unit \<in> set ''smhd''"
    then obtain v u where "''soon'' = v @ [u]" and u: "u \<in> set ''smhd''"
      by blast
    then have "last ''soon'' = u"
      by (metis last_snoc)
    with u show False by auto
  qed
  show ?thesis
    using parseExpirationTime_units [of 15 0 "[]" "''soon''"]
      parseExpirationTime_units [of 24 0 "[]" "''soon''"]
      parseExpirationTime_units [of 7 2 "[]" "''soon''"] no
    unfolding a z by simp
qed

section \<open>The three sums agree where doubles are exact\<close>

lemma gauss_nat: "2 * (\<Sum>j = 1..n. j) = n * (n + 1)" for n :: nat
  by (induction n) simp_all

lemma gauss_div: "(\<Sum>j = 1..n. j) = n * (n + 1) div 2" for n :: nat
  using gauss_nat [of n] by simp

lemma small_from_sum:
  fixes n :: nat
  assumes "n * (n + 1) div 2 < 2 ^ 53"
  shows "n < 2 ^ 27"
proof (rule ccontr)
  assume "\<not> n < 2 ^ 27"
  then have n: "(2::nat) ^ 27 \<le> n" by simp
  then have "(2::nat) ^ 27 * 2 ^ 27 \<le> n * (n + 1)"
    by (intro mult_mono) simp_all
  then have "(2::nat) ^ 54 \<le> n * (n + 1)" by simp
  then have "(2::nat) ^ 53 \<le> n * (n + 1) div 2" by simp
  with assms show False by simp
qed

lemma sum_to_n_a_exact:
  assumes "n * (n + 1) div 2 < 2 ^ 53"
  shows "sum_to_n_a (Finite n) = Finite (n * (n + 1) div 2)"
proof -
  have "n < 2 ^ 27" using assms by (rule small_from_sum)
  then have "n + 1 < 2 ^ 53" by simp
  then have s: "dadd (Finite n) (Finite 1) = Finite (n + 1)"
    by (simp add: round_double_small)
  have "n * (n + 1) < 2 ^ 54" using assms by simp
  moreover have "even (n * (n + 1))" by simp
  ultimately have "round_double (n * (n + 1)) = Finite (n * (n + 1))"
    by (rule round_double_even)
  with s show ?thesis by (simp add: sum_to_n_a_def)
qed

lemma sum_to_n_b_loop_exact:
  assumes "k \<le> Suc n" and "n < 2 ^ 27" and "s + (\<Sum>j = k..n. j) < 2 ^ 53"
  shows "sum_to_n_b_loop (Finite n) (Finite k) (Finite s) = Some (Finite (s + (\<Sum>j = k..n. j)))"
  using assms
proof (induction "Suc n - k" arbitrary: k s)
  case 0
  then have "k = Suc n" by simp
  then show ?case by (subst sum_to_n_b_loop.simps) simp
next
  case (Suc d)
  then have kn: "k \<le> n" by simp
  have split: "(\<Sum>j = k..n. j) = k + (\<Sum>j = Suc k..n. j)"
    using kn by (simp add: sum.atLeast_Suc_atMost)
  have "k + 1 < 2 ^ 53" using kn Suc.prems(2) by simp
  then have i: "dadd (Finite k) (Finite 1) = Finite (Suc k)"
    by (simp add: round_double_small)
  have "s + k < 2 ^ 53" using Suc.prems(3) split by simp
  then have a: "dadd (Finite s) (Finite k) = Finite (s + k)"
    by (simp add: round_double_small)
  have "sum_to_n_b_loop (Finite n) (Finite (Suc k)) (Finite (s + k)) =
      Some (Finite (s + k + (\<Sum>j = Suc k..n. j)))"
  proof (rule Suc.hyps(1))
    show "d = Suc n - Suc k" using Suc.hyps(2) by simp
    show "Suc k \<le> Suc n" using kn by simp
    show "n < 2 ^ 27" by (rule Suc.prems(2))
    show "s + k + (\<Sum>j = Suc k..n. j) < 2 ^ 53" using Suc.prems(3) split by simp
  qed
  then show ?case
    using kn i a split by (subst sum_to_n_b_loop.simps) (simp add: add.assoc)
qed

lemma sum_to_n_b_exact:
  assumes "n * (n + 1) div 2 < 2 ^ 53"
  shows "sum_to_n_b (Finite n) = Some (Finite (n * (n + 1) div 2))"
proof -
  have "n < 2 ^ 27" using assms by (rule small_from_sum)
  moreover have "(\<Sum>j = 1..n. j) < 2 ^ 53"
    using assms unfolding gauss_div .
  then have "0 + (\<Sum>j = 1..n. j) < 2 ^ 53"
    by (simp only: add_0)
  ultimately have "sum_to_n_b_loop (Finite n) (Finite 1) (Finite 0) =
      Some (Finite (0 + (\<Sum>j = 1..n. j)))"
    by (intro sum_to_n_b_loop_exact) simp_all
  then have "sum_to_n_b (Finite n) = Some (Finite (\<Sum>j = 1..n. j))"
    by (simp only: sum_to_n_b_def add_0)
  then show ?thesis unfolding gauss_div .
qed

lemma sum_to_n_c_exact:
  assumes "n \<le> Suc stack" and "(\<Sum>j = 1..n. j) < 2 ^ 53"
  shows "sum_to_n_c stack (Finite n) = Inr (Finite (\<Sum>j = 1..n. j))"
  using assms
proof (induction stack arbitrary: n)
  case 0
  then have "n = 0 \<or> n = 1" by auto
  then show ?case by auto
next
  case (Suc stack)
  show ?case
  proof (cases "n \<le> 1")
    case True
    then have "n = 0 \<or> n = 1" by auto
    then show ?thesis by auto
  next
    case False
    then obtain m where m: "n = Suc m" and m1: "1 \<le> m" by (cases n) auto
    have le: "m \<le> (\<Sum>j = 1..m. j)" using m1 by (cases m) simp_all
    have total: "(\<Sum>j = 1..n. j) = n + (\<Sum>j = 1..m. j)" using m by simp
    have "n < 2 ^ 53" using Suc.prems(2) total by simp
    then have "m < 2 ^ 53" using m by simp
    then have pre: "minus_one (Finite n) = Finite m"
      using m by (simp add: round_double_small)
    have "sum_to_n_c stack (Finite m) = Inr (Finite (\<Sum>j = 1..m. j))"
    proof (rule Suc.IH)
      show "m \<le> Suc stack" using Suc.prems(1) m by simp
      show "(\<Sum>j = 1..m. j) < 2 ^ 53" using Suc.prems(2) total by simp
    qed
    moreover have "dadd (Finite n) (Finite (\<Sum>j = 1..m. j)) = Finite (n + (\<Sum>j = 1..m. j))"
      using Suc.prems(2) total by (simp add: round_double_small)
    ultimately show ?thesis using False pre total by simp
  qed
qed

lemma sum_to_n_c_overflow:
  assumes "Suc stack < n" and "n < 2 ^ 53"
  shows "sum_to_n_c stack (Finite n) = Inl RangeError"
  using assms
proof (induction stack arbitrary: n)
  case 0
  then show ?case by simp
next
  case (Suc stack)
  then obtain m where m: "n = Suc m" by (cases n) auto
  have "m < 2 ^ 53" using Suc.prems(2) m by simp
  then have pre: "minus_one (Finite n) = Finite m"
    using m by (simp add: round_double_small)
  have "sum_to_n_c stack (Finite m) = Inl RangeError"
    using Suc.IH [of m] Suc.prems m by simp
  then show ?case using Suc.prems(1) pre by simp
qed

lemma dividend_even:
  assumes "is_double n" and "dmul (Finite n) (dadd (Finite n) (Finite 1)) = Finite p"
  shows "even p"
proof (cases "round_double (n + 1)")
  case (Finite s)
  have prod: "round_double (n * s) = Finite p"
    using assms(2) Finite by simp
  have "even (n * s)"
  proof (cases "n + 1 \<le> 2 ^ 53")
    case True
    then have "s = n + 1"
      using Finite round_double_le [of "n + 1"] by simp
    then show ?thesis by simp
  next
    case False
    then have "2 ^ 53 \<le> n" by simp
    moreover have "round_double n = Finite n"
      using assms(1) by (simp add: is_double_def)
    ultimately have "even n" by (rule round_double_big_even)
    then show ?thesis by simp
  qed
  show ?thesis
  proof (cases "n * s < 2 ^ 53")
    case True
    then have "p = n * s"
      using prod by (simp add: round_double_small)
    with \<open>even (n * s)\<close> show ?thesis by simp
  next
    case False
    then have "2 ^ 53 \<le> n * s" by simp
    then show ?thesis using prod by (rule round_double_big_even)
  qed
next
  case Infinity
  then show ?thesis using assms(2) by (simp split: if_splits)
next
  case NaN
  then show ?thesis using assms(2) by simp
qed

text \<open>
  Claim C10 as stated fails. At \<open>n = 134217730\<close> the product \<open>n * (n + 1)\<close> is not a
  double: it is rounded, and \<open>sum_to_n_a\<close> returns 9007199590285316, while
  \<open>n * (n + 1) / 2\<close> is 9007199590285315, an integer that no double holds. And with a
  call stack that holds 10000 further frames \<open>sum_to_n_c\<close> at 100000 does not return a
  value: it throws \<open>RangeError\<close>.
\<close>

theorem sum_to_n_rounding_counterexample:
  "sum_to_n_a (Finite 134217730) = Finite 9007199590285316
   \<and> 134217730 * (134217730 + 1) div 2 = (9007199590285315::nat)
   \<and> sum_to_n_a (Finite 134217730) \<noteq> Finite (134217730 * (134217730 + 1) div 2)
   \<and> sum_to_n_c 10000 (Finite 100000) = Inl RangeError"
proof -
  have "dadd (Finite 134217730) (Finite 1) = Finite 134217731"
    by (simp add: round_double_small)
  moreover have "round_double (134217730 * 134217731) = Finite 18014399180570632"
    using round_double_at [of 2 "134217730 * 134217731"] by simp
  ultimately have a: "sum_to_n_a (Finite 134217730) = Finite 9007199590285316"
    by (simp add: sum_to_n_a_def)
  have c: "sum_to_n_c 10000 (Finite 100000) = Inl RangeError"
    by (rule sum_to_n_c_overflow) simp_all
  from a c show ?thesis by simp
qed


text \<open>
  Claim C10, amended. For every non-negative integer \<open>n\<close> whose sum
  \<open>n * (n + 1) / 2\<close> is below \<open>2^53\<close>, the three implementations return the same
  value, \<open>n * (n + 1) / 2\<close>, which is the sum \<open>1 + 2 + ... + n\<close>: \<open>sum_to_n_a\<close>
  returns it, the loop of \<open>sum_to_n_b\<close> ends and returns it, and the recursive
  \<open>sum_to_n_c\<close> returns it whenever the call stack holds the \<open>n - 1\<close> nested calls.
\<close>

theorem sum_to_n_equivalent_in_range:
  "n * (n + 1) div 2 < 2 ^ 53 \<longrightarrow>
     sum_to_n_a (Finite n) = Finite (n * (n + 1) div 2)
     \<and> sum_to_n_b (Finite n) = Some (Finite (n * (n + 1) div 2))
     \<and> (n \<le> Suc stack \<longrightarrow> sum_to_n_c stack (Finite n) = Inr (Finite (n * (n + 1) div 2)))
     \<and> n * (n + 1) div 2 = (\<Sum>j = 1..n. j)"
proof
  assume r: "n * (n + 1) div 2 < 2 ^ 53"
  have "(\<Sum>j = 1..n. j) < 2 ^ 53"
    using r unfolding gauss_div .
  then have "n \<le> Suc stack \<longrightarrow> sum_to_n_c stack (Finite n) = Inr (Finite (\<Sum>j = 1..n. j))"
    using sum_to_n_c_exact [of n stack] by blast
  then have c: "n \<le> Suc stack \<longrightarrow> sum_to_n_c stack (Finite n) = Inr (Finite (n * (n + 1) div 2))"
    unfolding gauss_div .
  from sum_to_n_a_exact [OF r] sum_to_n_b_exact [OF r] c gauss_div [of n, symmetric]
  show "sum_to_n_a (Finite n) = Finite (n * (n + 1) div 2)
     \<and> sum_to_n_b (Finite n) = Some (Finite (n * (n + 1) div 2))
     \<and> (n \<le> Suc stack \<longrightarrow> sum_to_n_c stack (Finite n) = Inr (Finite (n * (n + 1) div 2)))
     \<and> n * (n + 1) div 2 = (\<Sum>j = 1..n. j)"
    by blast
qed

text \<open>The amended theorem at \<open>n = 5\<close> with room for four nested calls.\<close>

theorem sum_to_n_equivalent_in_range_witness:
  "(5::nat) * (5 + 1) div 2 < 2 ^ 53 \<and> (5::nat) \<le> Suc 4
   \<and> sum_to_n_a (Finite 5) = Finite 15
   \<and> sum_to_n_b (Finite 5) = Some (Finite 15)
   \<and> sum_to_n_c 4 (Finite 5) = Inr (Finite 15)"
  using sum_to_n_equivalent_in_range [of 5 4] by simp


end
